theory Spec2Isabelle
  imports Complex_Main "HOL-Library.Multiset"
begin

section \<open>Values, errors and array helpers\<close>

text \<open>
  The exceptions of the Python source that the model keeps as values. \<open>RuntimeError\<close> is the
  one the training loop catches around the jitted energy evaluation (\<open>vqe.py\<close>, line 265).
\<close>

datatype error =
  RuntimeError | ZeroDivisionError | TypeError | ValueError | IndexError | FileNotFoundError

text \<open>
  A real-valued scalar of the numeric backend. Arithmetic is taken over the exact reals;
  the one non-number the source can produce on well-shaped input is the \<open>nan\<close> that
  \<open>jnp.mean\<close> returns for an empty array, which is kept as its own value.
\<close>

datatype jfloat = Num real | NaN

definition jmean :: "real list \<Rightarrow> jfloat" where
  "jmean xs = (if xs = [] then NaN else Num (sum_list xs / real (length xs)))"

fun fadd :: "jfloat \<Rightarrow> jfloat \<Rightarrow> jfloat" where
  "fadd (Num x) (Num y) = Num (x + y)"
| "fadd _ _ = NaN"

fun fmul :: "jfloat \<Rightarrow> jfloat \<Rightarrow> jfloat" where
  "fmul (Num x) (Num y) = Num (x * y)"
| "fmul _ _ = NaN"

text \<open>Results of a batched call, gathered in order; the first failure is the failure of the batch.\<close>

fun collect :: "(error + 'a) list \<Rightarrow> error + 'a list" where
  "collect [] = Inr []"
| "collect (r # rs) =
     (case r of
        Inl e \<Rightarrow> Inl e
      | Inr v \<Rightarrow> (case collect rs of Inl e \<Rightarrow> Inl e | Inr vs \<Rightarrow> Inr (v # vs)))"

text \<open>\<open>jax.vmap(f, in_axes=(0, 0))\<close>: both arguments are mapped along their leading axis, which
  must have the same size.\<close>

definition vmap2 :: "('a \<Rightarrow> 'b \<Rightarrow> error + 'c) \<Rightarrow> 'a list \<Rightarrow> 'b list \<Rightarrow> error + 'c list" where
  "vmap2 f xs ys =
     (if length xs = length ys then collect (map (\<lambda>(x, y). f x y) (zip xs ys))
      else Inl ValueError)"

text \<open>\<open>a @ b\<close> on two one-dimensional arrays.\<close>

definition vdot :: "complex list \<Rightarrow> complex list \<Rightarrow> error + complex" where
  "vdot a b =
     (if length a = length b then Inr (sum_list (map (\<lambda>(x, y). x * y) (zip a b)))
      else Inl TypeError)"

section \<open>losses.py: fidelities\<close>

text \<open>The inner \<open>vqe_fidelty(s1, s2)\<close>: \<open>jnp.square(jnp.abs(jnp.conj(s1) @ s2))\<close>.\<close>

definition vqe_fidelty :: "complex list \<Rightarrow> complex list \<Rightarrow> error + real" where
  "vqe_fidelty s1 s2 =
     (case vdot (map cnj s1) s2 of Inl e \<Rightarrow> Inl e | Inr z \<Rightarrow> Inr ((cmod z)\<^sup>2))"

text \<open>\<open>vqe_fidelties(Y, params, q_circuit)\<close>: the fidelity of each circuit output with its
  reference state, then the mean.\<close>

definition vqe_fidelties ::
  "complex list list \<Rightarrow> 'p list \<Rightarrow> ('p \<Rightarrow> complex list) \<Rightarrow> error + jfloat" where
  "vqe_fidelties Y params q_circuit =
     (case vmap2 (\<lambda>y p. vqe_fidelty (q_circuit p) y) Y params of
        Inl e \<Rightarrow> Inl e
      | Inr fs \<Rightarrow> Inr (jmean fs))"

text \<open>\<open>vqe_fidelties_neighbouring(states)\<close>: \<open>states[:-1]\<close> against \<open>states[1:]\<close>, then the mean.\<close>

definition vqe_fidelties_neighbouring :: "complex list list \<Rightarrow> error + jfloat" where
  "vqe_fidelties_neighbouring states =
     (case vmap2 vqe_fidelty (butlast states) (tl states) of
        Inl e \<Rightarrow> Inl e
      | Inr fs \<Rightarrow> Inr (jmean fs))"

text \<open>A state vector of unit norm.\<close>

definition unit_norm :: "complex list \<Rightarrow> bool" where
  "unit_norm s \<longleftrightarrow> sum_list (map (\<lambda>x. (cmod x)\<^sup>2) s) = 1"

section \<open>vqe.py: energies\<close>

text \<open>
  A matrix is the list of its rows. Arrays of the backend are rectangular; \<open>ncols\<close> reads
  the row length off the first row.
\<close>

definition ncols :: "'a list list \<Rightarrow> nat" where
  "ncols M = (case M of [] \<Rightarrow> 0 | r # _ \<Rightarrow> length r)"

text \<open>\<open>v @ M\<close> for a one-dimensional \<open>v\<close> and a two-dimensional \<open>M\<close>: entry \<open>j\<close> is
  \<open>\<Sum>i. v[i] * M[i][j]\<close>; the length of \<open>v\<close> must be the number of rows.\<close>

definition vecmat :: "complex list \<Rightarrow> complex list list \<Rightarrow> error + complex list" where
  "vecmat v M =
     (if length v = length M
      then Inr (map (\<lambda>j. sum_list (map (\<lambda>i. v ! i * M ! i ! j) [0..<length v])) [0..<ncols M])
      else Inl TypeError)"

text \<open>\<open>compute_E(state, Hmat)\<close>: \<open>jnp.conj(state) @ Hmat @ state\<close>, associated to the left.\<close>

definition compute_E :: "complex list \<Rightarrow> complex list list \<Rightarrow> error + complex" where
  "compute_E state Hmat =
     (case vecmat (map cnj state) Hmat of Inl e \<Rightarrow> Inl e | Inr w \<Rightarrow> vdot w state)"

text \<open>\<open>compute_vqe_E(param, Hmat)\<close>: the state of the circuit at \<open>param\<close>, its energy, and
  \<open>jnp.real\<close> of it. The circuit (the qnode \<open>vqe_state\<close>) is a parameter.\<close>

definition compute_vqe_E ::
  "(real list \<Rightarrow> complex list) \<Rightarrow> real list \<Rightarrow> complex list list \<Rightarrow> error + real" where
  "compute_vqe_E vqe_state param Hmat =
     (case compute_E (vqe_state param) Hmat of Inl e \<Rightarrow> Inl e | Inr vqe_e \<Rightarrow> Inr (Re vqe_e))"

text \<open>\<open>v_compute_vqe_E(params)\<close> of line 211: the batched circuit, the batched energy against
  \<open>mat_Hs\<close>, and the real parts.\<close>

definition v_compute_vqe_E ::
  "(real list \<Rightarrow> complex list) \<Rightarrow> complex list list list \<Rightarrow> real list list \<Rightarrow> error + real list" where
  "v_compute_vqe_E vqe_state mat_Hs params =
     (case vmap2 compute_E (map vqe_state params) mat_Hs of
        Inl e \<Rightarrow> Inl e
      | Inr vqe_e \<Rightarrow> Inr (map Re vqe_e))"

text \<open>The \<open>loss(params)\<close> of the independent mode (line 228).\<close>

definition loss ::
  "(real list \<Rightarrow> complex list) \<Rightarrow> complex list list list \<Rightarrow> real \<Rightarrow> real list list \<Rightarrow> error + jfloat" where
  "loss vqe_state mat_Hs reg params =
     (let pred_states = map vqe_state params in
      case vmap2 compute_E pred_states mat_Hs of
        Inl e \<Rightarrow> Inl e
      | Inr vqe_e \<Rightarrow>
          if reg \<noteq> 0
          then (case vqe_fidelties_neighbouring pred_states of
                  Inl e \<Rightarrow> Inl e
                | Inr pen \<Rightarrow> Inr (fadd (jmean (map Re vqe_e)) (fmul (Num reg) pen)))
          else Inr (jmean (map Re vqe_e)))"

text \<open>A square matrix equal to its conjugate transpose.\<close>

definition hermitian :: "complex list list \<Rightarrow> bool" where
  "hermitian H \<longleftrightarrow>
     (\<forall>i < length H. length (H ! i) = length H) \<and>
     (\<forall>i < length H. \<forall>j < length H. H ! i ! j = cnj (H ! j ! i))"

section \<open>vqe.py: reference ground states\<close>

text \<open>\<open>jnp.argmin\<close> of a one-dimensional array: the first index of the least entry; an empty
  array has none.\<close>

fun argmin_from :: "real \<Rightarrow> nat \<Rightarrow> nat \<Rightarrow> real list \<Rightarrow> nat" where
  "argmin_from b bi i [] = bi"
| "argmin_from b bi i (x # xs) =
     (if x < b then argmin_from x i (Suc i) xs else argmin_from b bi (Suc i) xs)"

definition argmin :: "real list \<Rightarrow> error + nat" where
  "argmin xs = (case xs of [] \<Rightarrow> Inl ValueError | x # r \<Rightarrow> Inr (argmin_from x 0 1 r))"

text \<open>
  \<open>compute_true_state(H)\<close>: \<open>eigval, eigvec = jnp.linalg.eigh(H)\<close> and the column
  \<open>eigvec[:, jnp.argmin(eigval)]\<close>. The eigensolver is a library routine and is a parameter
  here; it returns the eigenvalues and the matrix whose columns are the eigenvectors. An index
  past the end of a row is clamped, as the backend does for array reads.
\<close>

definition compute_true_state ::
  "(complex list list \<Rightarrow> real list \<times> complex list list) \<Rightarrow> complex list list
     \<Rightarrow> error + complex list" where
  "compute_true_state eigh H =
     (case eigh H of (eigval, eigvec) \<Rightarrow>
        (case argmin eigval of
           Inl e \<Rightarrow> Inl e
         | Inr k \<Rightarrow> Inr (map (\<lambda>row. row ! min k (length row - 1)) eigvec)))"

text \<open>\<open>jv_compute_true_state(self.Hs.mat_Hs)\<close>: the map over the grid.\<close>

definition jv_compute_true_state ::
  "(complex list list \<Rightarrow> real list \<times> complex list list) \<Rightarrow> complex list list list
     \<Rightarrow> error + complex list list" where
  "jv_compute_true_state eigh mat_Hs = collect (map (compute_true_state eigh) mat_Hs)"

text \<open>
  What \<open>jnp.linalg.eigh\<close> promises for a Hermitian matrix of dimension \<open>n\<close>: \<open>n\<close> real
  eigenvalues and an \<open>n \<times> n\<close> matrix whose column \<open>k\<close> is an eigenvector for eigenvalue \<open>k\<close>,
  the columns being orthonormal.
\<close>

definition eigh_spec :: "complex list list \<Rightarrow> real list \<times> complex list list \<Rightarrow> bool" where
  "eigh_spec H r =
     (case r of (eigval, eigvec) \<Rightarrow>
        length eigval = length H \<and> length eigvec = length H \<and>
        (\<forall>i < length H. length (eigvec ! i) = length H) \<and>
        (\<forall>k < length H. \<forall>i < length H.
            (\<Sum>j < length H. H ! i ! j * eigvec ! j ! k) = of_real (eigval ! k) * eigvec ! i ! k) \<and>
        (\<forall>k < length H. \<forall>l < length H.
            (\<Sum>i < length H. cnj (eigvec ! i ! k) * eigvec ! i ! l) = (if k = l then 1 else 0)))"

text \<open>
  A ground state of \<open>H\<close> with respect to the eigendecomposition \<open>r\<close>: a vector of the dimension
  of \<open>H\<close>, of norm 1, that \<open>H\<close> maps to its multiple by an eigenvalue no other eigenvalue of \<open>r\<close>
  is below.
\<close>

definition is_ground_state ::
  "complex list list \<Rightarrow> real list \<times> complex list list \<Rightarrow> complex list \<Rightarrow> bool" where
  "is_ground_state H r g =
     (case r of (eigval, eigvec) \<Rightarrow>
        length g = length H \<and>
        (\<Sum>i < length H. cnj (g ! i) * g ! i) = 1 \<and>
        (\<exists>k < length eigval.
            g = map (\<lambda>row. row ! k) eigvec \<and>
            (\<forall>j < length eigval. eigval ! k \<le> eigval ! j) \<and>
            (\<forall>i < length H. (\<Sum>j < length H. H ! i ! j * g ! j) = of_real (eigval ! k) * g ! i)))"

section \<open>vqe.py: the engine\<close>

text \<open>
  The Hamiltonian grid is an object of the collaborating module; the engine reads these
  attributes of it. Indexing \<open>mat_Hs\<close> past its end is taken to raise.
\<close>

record Hs_grid =
  Hs_N :: nat
  Hs_n_states :: nat
  mat_Hs :: "complex list list list"
  true_e :: "real list"
  recycle_rule :: "nat list"

text \<open>
  A circuit function of the source applies its gates and returns the number of parameters it
  consumed. It is kept as the pair of what it returns for a qubit count and a parameter vector
  (which raises when the vector is too short) and of the state the device holds after it.
\<close>

record circuit =
  consumed :: "nat \<Rightarrow> real list \<Rightarrow> error + nat"
  state_after :: "nat \<Rightarrow> real list \<Rightarrow> complex list"

text \<open>The call sites of jitted batched evaluations that the oracle of the backend decides.\<close>

datatype jit_site = Energies nat | Fidelity nat | Final

text \<open>
  The numeric libraries and the environment: the eigensolver, automatic differentiation, the
  Adam optimizer of a learning rate (for the parameter tensor and for a single vector), the
  random generator, and whether a jitted evaluation raises \<open>RuntimeError\<close> at a call site.
  A jitted function computes what the function it wraps computes, or raises. The optimizer
  step and the eigensolver are taken as total.
\<close>

record ('o, 'r) backend =
  lib_eigh :: "complex list list \<Rightarrow> real list \<times> complex list list"
  grad_m :: "(real list list \<Rightarrow> error + jfloat) \<Rightarrow> real list list \<Rightarrow> real list list"
  grad_v :: "(real list \<Rightarrow> error + jfloat) \<Rightarrow> real list \<Rightarrow> real list"
  opt_init_m :: "real list list \<Rightarrow> 'o"
  opt_update_m :: "real \<Rightarrow> nat \<Rightarrow> real list list \<Rightarrow> 'o \<Rightarrow> 'o"
  get_params_m :: "'o \<Rightarrow> real list list"
  opt_init_v :: "real list \<Rightarrow> 'o"
  opt_update_v :: "real \<Rightarrow> nat \<Rightarrow> real list \<Rightarrow> 'o \<Rightarrow> 'o"
  get_params_v :: "'o \<Rightarrow> real list"
  np_uniform :: "real \<Rightarrow> real \<Rightarrow> nat \<times> nat \<Rightarrow> 'r \<Rightarrow> real list list \<times> 'r"
  np_rand :: "nat \<Rightarrow> 'r \<Rightarrow> real list \<times> 'r"
  raises :: "jit_site \<Rightarrow> bool"

text \<open>
  The attributes of a \<open>vqe\<close> object. \<open>true_states\<close> and \<open>states\<close> do not exist before the first
  training (\<open>None\<close>); the device and the drawing of the circuit are left out.
\<close>

record vqe =
  N :: nat
  Hs :: Hs_grid
  n_states :: nat
  circuit_fun :: circuit
  n_params :: nat
  vqe_params :: "real list list"
  MSE :: "jfloat list"
  vqe_e :: "real list"
  recycle :: bool
  states_dist :: "real list"
  true_states :: "complex list list option"
  states :: "complex list list option"
  trajectory :: "real list list list"

text \<open>\<open>vqe.__init__(Hs, circuit)\<close>.\<close>

definition vqe_init ::
  "('o, 'r) backend \<Rightarrow> Hs_grid \<Rightarrow> circuit \<Rightarrow> 'r \<Rightarrow> error + vqe \<times> 'r" where
  "vqe_init bk H c rng =
     (case consumed c (Hs_N H) (replicate 10000 0) of
        Inl e \<Rightarrow> Inl e
      | Inr np \<Rightarrow>
          (case np_uniform bk (- pi) pi (Hs_n_states H, np) rng of
             (ps, rng') \<Rightarrow>
               Inr (\<lparr>N = Hs_N H, Hs = H, n_states = Hs_n_states H, circuit_fun = c,
                     n_params = np, vqe_params = ps, MSE = [], vqe_e = [], recycle = False,
                     states_dist = [], true_states = None, states = None, trajectory = []\<rparr>,
                    rng')))"

text \<open>A loop body run over a sequence, stopping at the first exception.\<close>

fun foldE :: "('i \<Rightarrow> 's \<Rightarrow> error + 's) \<Rightarrow> 'i list \<Rightarrow> 's \<Rightarrow> error + 's" where
  "foldE f [] s = Inr s"
| "foldE f (i # is) s = (case f i s of Inl e \<Rightarrow> Inl e | Inr s' \<Rightarrow> foldE f is s')"

text \<open>Elementwise difference of two one-dimensional arrays, with broadcasting of a
  one-element array.\<close>

definition bsub :: "real list \<Rightarrow> real list \<Rightarrow> error + real list" where
  "bsub xs ys =
     (if length xs = length ys then Inr (map (\<lambda>(x, y). x - y) (zip xs ys))
      else if length ys = 1 then Inr (map (\<lambda>x. x - hd ys) xs)
      else if length xs = 1 then Inr (map (\<lambda>y. hd xs - y) ys)
      else Inl TypeError)"

text \<open>\<open>jnp.mean(jnp.square(energies - self.Hs.true_e))\<close>.\<close>

definition mse :: "real list \<Rightarrow> real list \<Rightarrow> error + jfloat" where
  "mse es te = (case bsub es te of Inl e \<Rightarrow> Inl e | Inr ds \<Rightarrow> Inr (jmean (map (\<lambda>d. d\<^sup>2) ds)))"

text \<open>\<open>j_v_compute_vqe_E\<close>, the jitted \<open>v_compute_vqe_E\<close>, at a call site.\<close>

definition j_v_compute_vqe_E ::
  "('o, 'r) backend \<Rightarrow> jit_site \<Rightarrow> (real list \<Rightarrow> complex list) \<Rightarrow> complex list list list
     \<Rightarrow> real list list \<Rightarrow> error + real list" where
  "j_v_compute_vqe_E bk site vqe_state Hmats params =
     (if raises bk site then Inl RuntimeError else v_compute_vqe_E vqe_state Hmats params)"

text \<open>\<open>jv_fidelties\<close>, the jitted \<open>losses.vqe_fidelties\<close> over the circuit, at a call site.\<close>

definition jv_fidelties ::
  "('o, 'r) backend \<Rightarrow> jit_site \<Rightarrow> (real list \<Rightarrow> complex list) \<Rightarrow> complex list list
     \<Rightarrow> real list list \<Rightarrow> error + jfloat" where
  "jv_fidelties bk site vqe_state true pars =
     (if raises bk site then Inl RuntimeError else vqe_fidelties true pars vqe_state)"

text \<open>
  The variables of the loop of the independent mode: the parameters, the optimizer state, the
  flag \<open>oom\<close>, the list \<open>MSE\<close>, the descriptions set on the progress bar (cost and mean
  fidelity), and the trajectory.
\<close>

record 'o ind_state =
  l_params :: "real list list"
  l_opt :: 'o
  l_oom :: bool
  l_MSE :: "jfloat list"
  l_shown :: "(jfloat \<times> jfloat) list"
  l_traj :: "real list list list"

text \<open>\<open>update(params, opt_state)\<close> of the independent mode: the gradient of \<open>loss\<close> and one
  Adam step, always with step number 0. The loss is evaluated by the differentiation, so its
  exceptions are exceptions of the update.\<close>

definition update_m ::
  "('o, 'r) backend \<Rightarrow> (real list list \<Rightarrow> error + jfloat) \<Rightarrow> real
     \<Rightarrow> real list list \<Rightarrow> 'o \<Rightarrow> error + real list list \<times> 'o" where
  "update_m bk lossf lr params opt_state =
     (case lossf params of
        Inl e \<Rightarrow> Inl e
      | Inr _ \<Rightarrow>
          (let grads = grad_m bk lossf params;
               opt_state' = opt_update_m bk lr 0 grads opt_state
           in Inr (get_params_m bk opt_state', opt_state')))"

text \<open>The diagnostic block of lines 259 to 276, run when \<open>(it + 1) % epochs_batch_size == 0\<close>.\<close>

definition diagnostics ::
  "('o, 'r) backend \<Rightarrow> (real list \<Rightarrow> complex list) \<Rightarrow> Hs_grid \<Rightarrow> complex list list
     \<Rightarrow> nat \<Rightarrow> 'o ind_state \<Rightarrow> error + 'o ind_state" where
  "diagnostics bk vqe_state H true it st =
     (let fallback = v_compute_vqe_E vqe_state (mat_Hs H) (l_params st);
          r = (if \<not> l_oom st
               then (case j_v_compute_vqe_E bk (Energies it) vqe_state (mat_Hs H) (l_params st) of
                       Inl RuntimeError \<Rightarrow> (True, fallback)
                     | Inl e \<Rightarrow> (False, Inl e)
                     | Inr es \<Rightarrow> (False, Inr es))
               else (True, fallback))
      in case r of (oom', energies) \<Rightarrow>
           (case energies of
              Inl e \<Rightarrow> Inl e
            | Inr es \<Rightarrow>
                (case mse es (true_e H) of
                   Inl e \<Rightarrow> Inl e
                 | Inr m \<Rightarrow>
                     (case jv_fidelties bk (Fidelity it) vqe_state true (l_params st) of
                        Inl e \<Rightarrow> Inl e
                      | Inr f \<Rightarrow>
                          Inr (st\<lparr>l_oom := oom', l_MSE := l_MSE st @ [m],
                                  l_shown := l_shown st @ [(m, f)]\<rparr>)))))"

text \<open>One pass of the loop \<open>for it in progress\<close> (lines 255 to 280).\<close>

definition ind_epoch ::
  "('o, 'r) backend \<Rightarrow> (real list \<Rightarrow> complex list) \<Rightarrow> Hs_grid \<Rightarrow> complex list list
     \<Rightarrow> real \<Rightarrow> real \<Rightarrow> bool \<Rightarrow> nat \<Rightarrow> nat \<Rightarrow> 'o ind_state \<Rightarrow> error + 'o ind_state" where
  "ind_epoch bk vqe_state H true lr reg save_trajectories epochs_batch_size it st =
     (case update_m bk (loss vqe_state (mat_Hs H) reg) lr (l_params st) (l_opt st) of
        Inl e \<Rightarrow> Inl e
      | Inr (params, opt_state) \<Rightarrow>
          (let st1 = st\<lparr>l_params := params, l_opt := opt_state\<rparr> in
           if epochs_batch_size = 0 then Inl ZeroDivisionError
           else
             (case (if (it + 1) mod epochs_batch_size = 0
                    then diagnostics bk vqe_state H true it st1 else Inr st1) of
                Inl e \<Rightarrow> Inl e
              | Inr st2 \<Rightarrow>
                  Inr (if it mod 10 = 0 \<and> save_trajectories
                       then st2\<lparr>l_traj := l_traj st2 @ [params]\<rparr> else st2))))"

text \<open>The state of the loop of the independent mode after its first \<open>k\<close> passes.\<close>

definition ind_run ::
  "('o, 'r) backend \<Rightarrow> vqe \<Rightarrow> complex list list \<Rightarrow> real \<Rightarrow> real \<Rightarrow> bool \<Rightarrow> nat \<Rightarrow> nat
     \<Rightarrow> error + 'o ind_state" where
  "ind_run bk e true lr reg save_trajectories epochs_batch_size k =
     foldE (ind_epoch bk (state_after (circuit_fun e) (N e)) (Hs e) true lr reg save_trajectories
              epochs_batch_size)
       [0..<k]
       \<lparr>l_params = vqe_params e, l_opt = opt_init_m bk (vqe_params e), l_oom = False,
        l_MSE = [], l_shown = [], l_traj = []\<rparr>"

text \<open>Lines 346 to 354: the results are stored, the energies and states are computed on the
  jitted path unless \<open>oom\<close> is set.\<close>

definition finalize ::
  "('o, 'r) backend \<Rightarrow> vqe \<Rightarrow> bool \<Rightarrow> jfloat list \<Rightarrow> real list list \<Rightarrow> error + vqe" where
  "finalize bk e oom MSE_list params =
     (let vqe_state = state_after (circuit_fun e) (N e) in
      case (if \<not> oom then j_v_compute_vqe_E bk Final vqe_state (mat_Hs (Hs e)) params
            else v_compute_vqe_E vqe_state (mat_Hs (Hs e)) params) of
        Inl er \<Rightarrow> Inl er
      | Inr es \<Rightarrow>
          Inr (e\<lparr>MSE := MSE_list, vqe_params := params, vqe_e := es,
                 states := Some (map vqe_state params)\<rparr>))"

text \<open>\<open>vqe.train\<close> with \<open>recycle=False\<close>. The result is the object after the call and the
  descriptions shown on the progress bar.\<close>

definition train_independent ::
  "('o, 'r) backend \<Rightarrow> vqe \<Rightarrow> real \<Rightarrow> nat \<Rightarrow> real \<Rightarrow> bool \<Rightarrow> nat
     \<Rightarrow> error + vqe \<times> (jfloat \<times> jfloat) list" where
  "train_independent bk e lr n_epochs reg save_trajectories epochs_batch_size =
     (case jv_compute_true_state (lib_eigh bk) (mat_Hs (Hs e)) of
        Inl er \<Rightarrow> Inl er
      | Inr true \<Rightarrow>
          (case ind_run bk e true lr reg save_trajectories epochs_batch_size n_epochs of
             Inl er \<Rightarrow> Inl er
           | Inr st \<Rightarrow>
               (case finalize bk (e\<lparr>true_states := Some true, recycle := False,
                                     trajectory := l_traj st\<rparr>)
                       (l_oom st) (l_MSE st) (l_params st) of
                  Inl er \<Rightarrow> Inl er
                | Inr x \<Rightarrow> Inr (x, l_shown st))))"

text \<open>The two losses of the recycle mode (lines 285 to 295), for one point of the grid.\<close>

definition loss_single ::
  "(real list \<Rightarrow> complex list) \<Rightarrow> complex list list \<Rightarrow> real list \<Rightarrow> error + jfloat" where
  "loss_single vqe_state Hmat param =
     (case compute_E (vqe_state param) Hmat of
        Inl e \<Rightarrow> Inl e
      | Inr z \<Rightarrow> Inr (Num (Re z)))"

definition loss_reg ::
  "(real list \<Rightarrow> complex list) \<Rightarrow> real \<Rightarrow> complex list \<Rightarrow> complex list list \<Rightarrow> real list
     \<Rightarrow> error + jfloat" where
  "loss_reg vqe_state reg previous_state Hmat param =
     (case compute_E (vqe_state param) Hmat of
        Inl e \<Rightarrow> Inl e
      | Inr z \<Rightarrow>
          (case vqe_fidelty (vqe_state param) previous_state of
             Inl e \<Rightarrow> Inl e
           | Inr f \<Rightarrow> Inr (Num (Re z + reg * f))))"

text \<open>\<open>update\<close> and \<open>update_reg\<close> of the recycle mode: one Adam step on a single vector.\<close>

definition update_v ::
  "('o, 'r) backend \<Rightarrow> (real list \<Rightarrow> error + jfloat) \<Rightarrow> real
     \<Rightarrow> real list \<Rightarrow> 'o \<Rightarrow> error + real list \<times> 'o" where
  "update_v bk lossf lr param opt_state =
     (case lossf param of
        Inl e \<Rightarrow> Inl e
      | Inr _ \<Rightarrow>
          (let grads = grad_v bk lossf param;
               opt_state' = opt_update_v bk lr 0 grads opt_state
           in Inr (get_params_v bk opt_state', opt_state')))"

text \<open>\<open>xs[i]\<close> of a sequence.\<close>

definition nth_E :: "'a list \<Rightarrow> nat \<Rightarrow> error + 'a" where
  "nth_E xs i = (if i < length xs then Inr (xs ! i) else Inl IndexError)"

text \<open>Lines 323 to 324: \<open>10 * n_epochs\<close> unregularised steps on the Hamiltonian at \<open>idx\<close>.\<close>

definition recycle_first ::
  "('o, 'r) backend \<Rightarrow> (real list \<Rightarrow> complex list) \<Rightarrow> Hs_grid \<Rightarrow> real \<Rightarrow> nat \<Rightarrow> nat
     \<Rightarrow> real list \<Rightarrow> error + real list \<times> 'o" where
  "recycle_first bk vqe_state H lr n_epochs idx param =
     foldE (\<lambda>it (p, opt_state).
              case nth_E (mat_Hs H) idx of
                Inl e \<Rightarrow> Inl e
              | Inr Hmat \<Rightarrow> update_v bk (loss_single vqe_state Hmat) lr p opt_state)
       [0..<10 * n_epochs] (param, opt_init_v bk param)"

text \<open>One pass of the loop \<open>for idx in (progress)\<close> (lines 330 to 339); the variables are
  \<open>param\<close>, \<open>previous_state\<close> and the list \<open>params\<close>.\<close>

definition recycle_point ::
  "('o, 'r) backend \<Rightarrow> (real list \<Rightarrow> complex list) \<Rightarrow> Hs_grid \<Rightarrow> real \<Rightarrow> nat \<Rightarrow> real \<Rightarrow> nat
     \<Rightarrow> real list \<times> complex list \<times> real list list
     \<Rightarrow> error + real list \<times> complex list \<times> real list list" where
  "recycle_point bk vqe_state H lr n_epochs reg idx s =
     (case s of (param, previous_state, params) \<Rightarrow>
        (case foldE (\<lambda>it (p, opt_state).
                       case nth_E (mat_Hs H) idx of
                         Inl e \<Rightarrow> Inl e
                       | Inr Hmat \<Rightarrow>
                           update_v bk (loss_reg vqe_state reg previous_state Hmat) lr p opt_state)
                [0..<n_epochs] (param, opt_init_v bk param) of
           Inl e \<Rightarrow> Inl e
         | Inr (param', opt_state) \<Rightarrow>
             if idx < length params
             then Inr (param', vqe_state param', params[idx := param'])
             else Inl IndexError))"

text \<open>\<open>vqe.train\<close> with \<open>recycle=True\<close> (lines 281 to 354). The optimizer is taken to return
  vectors of the length it was given, so that the final list is rectangular.\<close>

definition train_recycle ::
  "('o, 'r) backend \<Rightarrow> vqe \<Rightarrow> real \<Rightarrow> nat \<Rightarrow> real \<Rightarrow> 'r \<Rightarrow> error + vqe \<times> 'r" where
  "train_recycle bk e lr n_epochs reg rng =
     (case jv_compute_true_state (lib_eigh bk) (mat_Hs (Hs e)) of
        Inl er \<Rightarrow> Inl er
      | Inr true \<Rightarrow>
          (let vqe_state = state_after (circuit_fun e) (N e);
               params = replicate (n_states e) (replicate (n_params e) 0);
               idx = 0
           in case np_rand bk (n_params e) rng of (param0, rng') \<Rightarrow>
                (case recycle_first bk vqe_state (Hs e) lr n_epochs idx param0 of
                   Inl er \<Rightarrow> Inl er
                 | Inr (param, opt_state) \<Rightarrow>
                     if idx < length params
                     then
                       (case foldE (recycle_point bk vqe_state (Hs e) lr n_epochs reg)
                               (tl (recycle_rule (Hs e)))
                               (param, vqe_state param, params[idx := param]) of
                          Inl er \<Rightarrow> Inl er
                        | Inr (param', previous_state, params') \<Rightarrow>
                            (case finalize bk (e\<lparr>true_states := Some true, recycle := True\<rparr>)
                                    False [] params' of
                               Inl er \<Rightarrow> Inl er
                             | Inr x \<Rightarrow> Inr (x, rng')))
                     else Inl IndexError)))"

text \<open>\<open>vqe.train(lr, n_epochs, reg, circuit, recycle, save_trajectories, epochs_batch_size)\<close>;
  the printing of the circuit is left out.\<close>

definition train ::
  "('o, 'r) backend \<Rightarrow> vqe \<Rightarrow> real \<Rightarrow> nat \<Rightarrow> real \<Rightarrow> bool \<Rightarrow> bool \<Rightarrow> nat \<Rightarrow> 'r
     \<Rightarrow> error + vqe \<times> (jfloat \<times> jfloat) list \<times> 'r" where
  "train bk e lr n_epochs reg recycle_flag save_trajectories epochs_batch_size rng =
     (if \<not> recycle_flag
      then (case train_independent bk e lr n_epochs reg save_trajectories epochs_batch_size of
              Inl er \<Rightarrow> Inl er
            | Inr (x, shown) \<Rightarrow> Inr (x, shown, rng))
      else (case train_recycle bk e lr n_epochs reg rng of
              Inl er \<Rightarrow> Inl er
            | Inr (x, rng') \<Rightarrow> Inr (x, [], rng')))"

text \<open>\<open>vqe.save\<close> and \<open>load_vqe\<close>. The file system maps a file name to the pickled list.\<close>

type_synonym files = "string \<rightharpoonup> Hs_grid \<times> real list list \<times> circuit"

definition save :: "vqe \<Rightarrow> string \<Rightarrow> files \<Rightarrow> files" where
  "save e filename fs = fs(filename \<mapsto> (Hs e, vqe_params e, circuit_fun e))"

definition load_vqe :: "('o, 'r) backend \<Rightarrow> string \<Rightarrow> files \<Rightarrow> 'r \<Rightarrow> error + vqe \<times> 'r" where
  "load_vqe bk filename fs rng =
     (case fs filename of
        None \<Rightarrow> Inl FileNotFoundError
      | Some (H, ps, c) \<Rightarrow>
          (case vqe_init bk H c rng of
             Inl e \<Rightarrow> Inl e
           | Inr (loaded_vqe, rng') \<Rightarrow> Inr (loaded_vqe\<lparr>vqe_params := ps\<rparr>, rng')))"


text \<open>
  The contract of a circuit function that reads the first \<open>k\<close> entries of its parameter vector
  on \<open>n\<close> qubits: it returns \<open>k\<close> whenever the vector holds them, whatever else the vector
  holds, and indexing past the end of a shorter vector raises.
\<close>

definition consumes :: "circuit \<Rightarrow> nat \<Rightarrow> nat \<Rightarrow> bool" where
  "consumes c n k \<longleftrightarrow>
     (\<forall>p. consumed c n p = (if k \<le> length p then Inr k else Inl IndexError))"

text \<open>
  The contract of \<open>np.random.uniform(low, high, size=(r, c))\<close>: an array of \<open>r\<close> rows of \<open>c\<close>
  samples of the half-open interval from \<open>low\<close> to \<open>high\<close>. That the samples are independent
  and uniformly distributed is the generator's own contract and is not expressed here.
\<close>

definition uniform_spec :: "('o, 'r) backend \<Rightarrow> bool" where
  "uniform_spec bk \<longleftrightarrow>
     (\<forall>lo hi r c rng. lo < hi \<longrightarrow>
        length (fst (np_uniform bk lo hi (r, c) rng)) = r \<and>
        (\<forall>row \<in> set (fst (np_uniform bk lo hi (r, c) rng)).
           length row = c \<and> (\<forall>x \<in> set row. lo \<le> x \<and> x < hi)))"

section \<open>A small instance\<close>

text \<open>
  An instance on which the definitions are evaluated: an eigensolver that is right on diagonal
  matrices, an optimizer whose step adds 1 to every parameter, a generator that returns constant
  arrays, and a circuit of one parameter whose final state is a given function of the
  parameters.
\<close>

definition example_eigh :: "complex list list \<Rightarrow> real list \<times> complex list list" where
  "example_eigh H =
     (map (\<lambda>i. Re (H ! i ! i)) [0..<length H],
      map (\<lambda>i. map (\<lambda>j. if i = j then 1 else 0) [0..<length H]) [0..<length H])"

definition example_backend :: "(jit_site \<Rightarrow> bool) \<Rightarrow> (real list list, nat) backend" where
  "example_backend oracle =
     \<lparr>lib_eigh = example_eigh,
      grad_m = (\<lambda>f p. p),
      grad_v = (\<lambda>f p. p),
      opt_init_m = (\<lambda>p. p),
      opt_update_m = (\<lambda>lr i g s. map (map (\<lambda>x. x + 1)) s),
      get_params_m = (\<lambda>s. s),
      opt_init_v = (\<lambda>p. [p]),
      opt_update_v = (\<lambda>lr i g s. map (map (\<lambda>x. x + 1)) s),
      get_params_v = hd,
      np_uniform = (\<lambda>lo hi (r, c) rng. (replicate r (replicate c 0), Suc rng)),
      np_rand = (\<lambda>n rng. (replicate n (1 / 2), Suc rng)),
      raises = oracle\<rparr>"

definition example_circuit :: "(real list \<Rightarrow> complex list) \<Rightarrow> circuit" where
  "example_circuit f =
     \<lparr>consumed = (\<lambda>n p. if 1 \<le> length p then Inr 1 else Inl IndexError),
      state_after = (\<lambda>n. f)\<rparr>"

text \<open>A grid of four one-dimensional Hamiltonians with the rule \<open>[2, 0, 3, 1]\<close>, and the engine
  that \<open>vqe(Hs, circuit)\<close> builds over it.\<close>

definition example_grid4 :: Hs_grid where
  "example_grid4 =
     \<lparr>Hs_N = 0, Hs_n_states = 4, mat_Hs = [[[0]], [[1]], [[2]], [[3]]],
      true_e = [0, 1, 2, 3], recycle_rule = [2, 0, 3, 1]\<rparr>"


definition example_engine4 :: vqe where
  "example_engine4 =
     \<lparr>N = 0, Hs = example_grid4, n_states = 4, circuit_fun = example_circuit (\<lambda>p. [1]),
      n_params = 1, vqe_params = [[0], [0], [0], [0]], MSE = [], vqe_e = [], recycle = False,
      states_dist = [], true_states = None, states = None, trajectory = []\<rparr>"

text \<open>A grid of one point with the zero Hamiltonian on one qubit, and the engine that
  \<open>vqe(Hs, circuit)\<close> builds over it for a circuit of final state \<open>f p\<close>.\<close>

definition example_grid1 :: Hs_grid where
  "example_grid1 =
     \<lparr>Hs_N = 1, Hs_n_states = 1, mat_Hs = [[[0, 0], [0, 0]]], true_e = [0], recycle_rule = [0]\<rparr>"

definition example_engine1 :: "(real list \<Rightarrow> complex list) \<Rightarrow> vqe" where
  "example_engine1 f =
     \<lparr>N = 1, Hs = example_grid1, n_states = 1, circuit_fun = example_circuit f,
      n_params = 1, vqe_params = [[0]], MSE = [], vqe_e = [], recycle = False,
      states_dist = [], true_states = None, states = None, trajectory = []\<rparr>"

section \<open>Facts about the inner product\<close>

lemma collect_map_Inr: "collect (map (\<lambda>x. Inr (g x)) xs) = Inr (map g xs)"
  by (induction xs) simp_all

lemma cdot_cnj_swap:
  "length a = length b \<Longrightarrow>
   sum_list (map (\<lambda>(x, y). x * y) (zip (map cnj b) a)) =
   cnj (sum_list (map (\<lambda>(x, y). x * y) (zip (map cnj a) b)))"
  by (induction a b rule: list_induct2) (simp_all add: mult.commute)

lemma cdot_self:
  "sum_list (map (\<lambda>(x, y). x * y) (zip (map cnj a) a)) =
   of_real (sum_list (map (\<lambda>x. (cmod x)\<^sup>2) a))"
proof (induction a)
  case Nil
  show ?case by simp
next
  case (Cons x a)
  have "cnj x * x = of_real ((cmod x)\<^sup>2)"
    by (metis complex_norm_square mult.commute)
  with Cons show ?case by simp
qed

lemma cdot_scale_left:
  "length a = length b \<Longrightarrow>
   sum_list (map (\<lambda>(x, y). x * y) (zip (map cnj (map ((*) c) a)) b)) =
   cnj c * sum_list (map (\<lambda>(x, y). x * y) (zip (map cnj a) b))"
  by (induction a b rule: list_induct2) (simp_all add: algebra_simps)

lemma cdot_scale_right:
  "length a = length b \<Longrightarrow>
   sum_list (map (\<lambda>(x, y). x * y) (zip (map cnj a) (map ((*) c) b))) =
   c * sum_list (map (\<lambda>(x, y). x * y) (zip (map cnj a) b))"
  by (induction a b rule: list_induct2) (simp_all add: algebra_simps)

lemma cdot_bound:
  "length a = length b \<Longrightarrow>
   cmod (sum_list (map (\<lambda>(x, y). x * y) (zip (map cnj a) b))) \<le>
   (sum_list (map (\<lambda>x. (cmod x)\<^sup>2) a) + sum_list (map (\<lambda>x. (cmod x)\<^sup>2) b)) / 2"
proof (induction a b rule: list_induct2)
  case Nil
  show ?case by simp
next
  case (Cons x a y b)
  let ?r = "sum_list (map (\<lambda>(x, y). x * y) (zip (map cnj a) b))"
  have "0 \<le> (cmod x - cmod y)\<^sup>2" by simp
  then have am: "cmod x * cmod y \<le> ((cmod x)\<^sup>2 + (cmod y)\<^sup>2) / 2"
    by (simp add: power2_diff field_simps)
  have "cmod (cnj x * y + ?r) \<le> cmod (cnj x * y) + cmod ?r"
    by (rule norm_triangle_ineq)
  also have "cmod (cnj x * y) = cmod x * cmod y"
    by (simp add: norm_mult)
  finally show ?case using am Cons.IH by (simp add: field_simps)
qed

lemma fidelity_value:
  "length a = length b \<Longrightarrow>
   vqe_fidelty a b = Inr ((cmod (sum_list (map (\<lambda>(x, y). x * y) (zip (map cnj a) b))))\<^sup>2)"
  by (simp add: vqe_fidelty_def vdot_def)

lemma fidelity_unit_range:
  assumes "length a = length b" "unit_norm a" "unit_norm b"
  shows "(cmod (sum_list (map (\<lambda>(x, y). x * y) (zip (map cnj a) b))))\<^sup>2 \<le> 1"
proof -
  have "cmod (sum_list (map (\<lambda>(x, y). x * y) (zip (map cnj a) b))) \<le> 1"
    using cdot_bound [OF assms(1)] assms(2,3) by (simp add: unit_norm_def)
  then show ?thesis
    by (simp add: power_le_one)
qed

lemma cdot_as_sum:
  assumes "length a = length b"
  shows "sum_list (map (\<lambda>(x, y). x * y) (zip (map cnj a) b)) = (\<Sum>i<length a. cnj (a ! i) * b ! i)"
proof -
  have "zip (map cnj a) b = map (\<lambda>i. (cnj (a ! i), b ! i)) [0..<length a]"
    using assms by (intro nth_equalityI) simp_all
  then have "sum_list (map (\<lambda>(x, y). x * y) (zip (map cnj a) b)) =
             sum_list (map (\<lambda>i. cnj (a ! i) * b ! i) [0..<length a])"
    by (simp add: comp_def)
  also have "\<dots> = (\<Sum>i<length a. cnj (a ! i) * b ! i)"
    by (simp add: interv_sum_list_conv_sum_set_nat atLeast0LessThan)
  finally show ?thesis .
qed

section \<open>Properties of the fidelity\<close>

text \<open>
  C5. For unit-norm states \<open>a\<close> and \<open>b\<close> of one dimension, the fidelity is
  \<open>|conj(a) \<cdot> b|\<^sup>2\<close>, the squared modulus of \<open>\<Sum>i. conj(a[i]) * b[i]\<close>; it is a real number
  between 0 and 1, it is symmetric, the fidelity of a state with itself is 1, and multiplying
  either argument by a complex scalar of modulus 1 leaves it unchanged.
\<close>

theorem fidelity_properties:
  assumes "length a = length b" "unit_norm a" "unit_norm b"
  shows "\<exists>f. vqe_fidelty a b = Inr f
           \<and> f = (cmod (\<Sum>i<length a. cnj (a ! i) * b ! i))\<^sup>2
           \<and> 0 \<le> f \<and> f \<le> 1
           \<and> vqe_fidelty b a = Inr f
           \<and> vqe_fidelty a a = Inr 1
           \<and> (\<forall>c. cmod c = 1 \<longrightarrow>
                 vqe_fidelty (map ((*) c) a) b = Inr f \<and> vqe_fidelty a (map ((*) c) b) = Inr f)"
proof -
  let ?d = "sum_list (map (\<lambda>(x, y). x * y) (zip (map cnj a) b))"
  have ab: "vqe_fidelty a b = Inr ((cmod ?d)\<^sup>2)"
    using assms(1) by (rule fidelity_value)
  have val: "(cmod ?d)\<^sup>2 = (cmod (\<Sum>i<length a. cnj (a ! i) * b ! i))\<^sup>2"
    by (simp only: cdot_as_sum [OF assms(1)])
  have rng: "0 \<le> (cmod ?d)\<^sup>2" "(cmod ?d)\<^sup>2 \<le> 1"
    using fidelity_unit_range [OF assms] by simp_all
  have ba: "vqe_fidelty b a = Inr ((cmod ?d)\<^sup>2)"
    using assms(1) cdot_cnj_swap [OF assms(1)] by (simp add: fidelity_value)
  have aa: "vqe_fidelty a a = Inr 1"
    using assms(2) by (simp add: fidelity_value cdot_self unit_norm_def)
  have ph: "vqe_fidelty (map ((*) c) a) b = Inr ((cmod ?d)\<^sup>2)
          \<and> vqe_fidelty a (map ((*) c) b) = Inr ((cmod ?d)\<^sup>2)" if "cmod c = 1" for c
    using assms(1) that
    by (simp add: fidelity_value cdot_scale_left cdot_scale_right norm_mult del: map_map)
  from ab val rng ba aa ph show ?thesis by blast
qed

theorem fidelity_properties_witness:
  "unit_norm [3 / 5, 4 / 5] \<and> unit_norm [1, 0] \<and> unit_norm [0, 1]
   \<and> vqe_fidelty [3 / 5, 4 / 5] [1, 0] = Inr (9 / 25)
   \<and> (cmod (\<Sum>i<length [3 / 5, 4 / 5 :: complex]. cnj ([3 / 5, 4 / 5] ! i) * [1, 0] ! i))\<^sup>2 = 9 / 25
   \<and> vqe_fidelty [1, 0] [3 / 5, 4 / 5] = Inr (9 / 25)
   \<and> vqe_fidelty [3 / 5, 4 / 5] [3 / 5, 4 / 5] = Inr 1
   \<and> cmod \<i> = 1
   \<and> vqe_fidelty (map ((*) \<i>) [3 / 5, 4 / 5]) [1, 0] = Inr (9 / 25)
   \<and> vqe_fidelty [3 / 5, 4 / 5] (map ((*) \<i>) [1, 0]) = Inr (9 / 25)
   \<and> vqe_fidelty [1, 0] [0, 1] = Inr 0
   \<and> vqe_fidelty [1, 0] [1, 0] = Inr 1"
  using fidelity_properties [of "[3 / 5, 4 / 5]" "[1, 0]"]
  by (simp add: unit_norm_def vqe_fidelty_def vdot_def norm_divide norm_mult power2_eq_square
      lessThan_Suc numeral_2_eq_2)

section \<open>The neighbouring-fidelity penalty\<close>

lemma collect_fidelties:
  "\<forall>p \<in> set ps. length (fst p) = length (snd p) \<Longrightarrow>
   collect (map (\<lambda>(x, y). vqe_fidelty x y) ps) =
   Inr (map (\<lambda>(x, y). (cmod (sum_list (map (\<lambda>(u, v). u * v) (zip (map cnj x) y))))\<^sup>2) ps)"
  by (induction ps) (auto simp: fidelity_value)

lemma sum_list_unit_bounds:
  "\<forall>x \<in> set xs. 0 \<le> x \<and> x \<le> (1::real) \<Longrightarrow> 0 \<le> sum_list xs \<and> sum_list xs \<le> real (length xs)"
  by (induction xs) auto

lemma neighbour_pairs_nth:
  assumes "i < length psis - 1"
  shows "zip (butlast psis) (tl psis) ! i = (psis ! i, psis ! Suc i)"
  using assms by (simp add: nth_butlast nth_tl)

text \<open>
  C10. The neighbouring-fidelity penalty is the arithmetic mean of the fidelities of the
  \<open>n_states - 1\<close> pairs of consecutive states (state \<open>i\<close> with state \<open>i + 1\<close>). For two or
  more unit-norm states of one dimension it is a real number between 0 and 1; for a single state
  it is the mean of an empty array, the value \<open>nan\<close>.
\<close>

theorem neighbouring_penalty_mean:
  "vqe_fidelties_neighbouring [s] = Inr NaN \<and>
   (2 \<le> length psis \<and> (\<forall>t \<in> set psis. unit_norm t \<and> length t = d) \<longrightarrow>
      (\<exists>fs. length fs = length psis - 1
          \<and> (\<forall>i < length fs. vqe_fidelty (psis ! i) (psis ! Suc i) = Inr (fs ! i))
          \<and> vqe_fidelties_neighbouring psis = Inr (Num (sum_list fs / real (length psis - 1)))
          \<and> 0 \<le> sum_list fs / real (length psis - 1)
          \<and> sum_list fs / real (length psis - 1) \<le> 1))"
proof (intro conjI impI)
  show "vqe_fidelties_neighbouring [s] = Inr NaN"
    by (simp add: vqe_fidelties_neighbouring_def vmap2_def jmean_def)
next
  assume h: "2 \<le> length psis \<and> (\<forall>t \<in> set psis. unit_norm t \<and> length t = d)"
  let ?ps = "zip (butlast psis) (tl psis)"
  let ?g = "\<lambda>(x, y). (cmod (sum_list (map (\<lambda>(u, v). u * v) (zip (map cnj x) y))))\<^sup>2"
  let ?fs = "map ?g ?ps"
  have len: "length ?ps = length psis - 1" by simp
  have nth: "?ps ! i = (psis ! i, psis ! Suc i)" if "i < length psis - 1" for i
    using that by (rule neighbour_pairs_nth)
  have mem: "fst p \<in> set psis \<and> snd p \<in> set psis" if "p \<in> set ?ps" for p
  proof -
    obtain x y where p: "p = (x, y)" by (cases p)
    from that p have "x \<in> set (butlast psis)" "y \<in> set (tl psis)"
      by (auto dest: set_zip_leftD set_zip_rightD)
    then show ?thesis using p
      by (auto dest: in_set_butlastD list.set_sel(2) [rotated])
  qed
  have same: "\<forall>p \<in> set ?ps. length (fst p) = length (snd p)"
    using mem h by auto
  have col: "collect (map (\<lambda>(x, y). vqe_fidelty x y) ?ps) = Inr ?fs"
    using same by (rule collect_fidelties)
  have "length ?fs \<noteq> 0" using h by (simp del: length_0_conv)
  then have ne: "?fs \<noteq> []" by (simp only: length_0_conv not_False_eq_True)
  have val: "vqe_fidelties_neighbouring psis = Inr (Num (sum_list ?fs / real (length psis - 1)))"
    using col ne by (simp add: vqe_fidelties_neighbouring_def vmap2_def jmean_def)
  have each: "vqe_fidelty (psis ! i) (psis ! Suc i) = Inr (?fs ! i)" if "i < length ?fs" for i
  proof -
    from that have i: "i < length psis - 1" by simp
    then have "psis ! i \<in> set psis" "psis ! Suc i \<in> set psis" by auto
    with h have "length (psis ! i) = length (psis ! Suc i)" by auto
    then show ?thesis using i nth [OF i] by (simp add: fidelity_value)
  qed
  have rng: "\<forall>x \<in> set ?fs. 0 \<le> x \<and> x \<le> 1"
  proof
    fix x assume "x \<in> set ?fs"
    then obtain a b where ab: "(a, b) \<in> set ?ps" and x: "x = ?g (a, b)" by auto
    from mem [OF ab] h have "length a = length b" "unit_norm a" "unit_norm b" by auto
    then show "0 \<le> x \<and> x \<le> 1" using x fidelity_unit_range [of a b] by simp
  qed
  have pos: "0 < real (length psis - 1)" using h by simp
  from sum_list_unit_bounds [OF rng]
  have b: "0 \<le> sum_list ?fs" "sum_list ?fs \<le> real (length psis - 1)" by simp_all
  have lo: "0 \<le> sum_list ?fs / real (length psis - 1)"
    using b(1) pos by simp
  have hi: "sum_list ?fs / real (length psis - 1) \<le> 1"
    using b(2) pos by (simp add: divide_le_eq)
  show "\<exists>fs. length fs = length psis - 1
          \<and> (\<forall>i < length fs. vqe_fidelty (psis ! i) (psis ! Suc i) = Inr (fs ! i))
          \<and> vqe_fidelties_neighbouring psis = Inr (Num (sum_list fs / real (length psis - 1)))
          \<and> 0 \<le> sum_list fs / real (length psis - 1)
          \<and> sum_list fs / real (length psis - 1) \<le> 1"
    using len each val lo hi by (intro exI [of _ ?fs]) simp
qed

theorem neighbouring_penalty_mean_witness:
  "vqe_fidelties_neighbouring [[1, 0]] = Inr NaN
   \<and> 2 \<le> length [[1, 0], [1, 0], [0, 1 :: complex]]
   \<and> unit_norm [1, 0] \<and> unit_norm [0, 1]
   \<and> vqe_fidelty [1, 0] [1, 0] = Inr 1 \<and> vqe_fidelty [1, 0] [0, 1] = Inr 0
   \<and> vqe_fidelties_neighbouring [[1, 0], [1, 0], [0, 1]] = Inr (Num (1 / 2))"
  using neighbouring_penalty_mean [of "[1, 0]" "[[1, 0], [1, 0], [0, 1]]" 2]
  by (simp add: unit_norm_def vqe_fidelties_neighbouring_def vmap2_def jmean_def
      vqe_fidelty_def vdot_def)

section \<open>The expected energy\<close>

lemma ncols_square: "\<forall>i < length H. length (H ! i) = length H \<Longrightarrow> ncols H = length H"
  by (cases H) (auto simp: ncols_def)

lemma sum_list_zip_upt:
  assumes "length s = n"
  shows "sum_list (map (\<lambda>(x, y). x * y) (zip (map f [0..<n]) s)) = (\<Sum>j<n. f j * (s ! j :: complex))"
proof -
  have "zip (map f [0..<n]) s = map (\<lambda>j. (f j, s ! j)) [0..<n]"
    using assms by (intro nth_equalityI) simp_all
  then have "sum_list (map (\<lambda>(x, y). x * y) (zip (map f [0..<n]) s)) =
             sum_list (map (\<lambda>j. f j * s ! j) [0..<n])"
    by (simp add: comp_def)
  also have "\<dots> = (\<Sum>j<n. f j * s ! j)"
    by (simp add: interv_sum_list_conv_sum_set_nat atLeast0LessThan)
  finally show ?thesis .
qed

lemma compute_E_value:
  assumes sq: "\<forall>i < length H. length (H ! i) = length H" and len: "length s = length H"
  shows "compute_E s H = Inr (\<Sum>j<length H. \<Sum>i<length H. cnj (s ! i) * H ! i ! j * s ! j)"
proof -
  let ?n = "length H"
  let ?f = "\<lambda>j. sum_list (map (\<lambda>i. map cnj s ! i * H ! i ! j) [0..<?n])"
  have f: "?f j = (\<Sum>i<?n. cnj (s ! i) * H ! i ! j)" for j
  proof -
    have "?f j = (\<Sum>i<?n. map cnj s ! i * H ! i ! j)"
      by (simp add: interv_sum_list_conv_sum_set_nat atLeast0LessThan)
    also have "\<dots> = (\<Sum>i<?n. cnj (s ! i) * H ! i ! j)"
      using len by (intro sum.cong) simp_all
    finally show ?thesis .
  qed
  have a: "compute_E s H = vdot (map ?f [0..<?n]) s"
    using len ncols_square [OF sq] by (simp add: compute_E_def vecmat_def)
  have b: "vdot (map ?f [0..<?n]) s = Inr (\<Sum>j<?n. ?f j * s ! j)"
    using len sum_list_zip_upt [of s ?n ?f] by (simp add: vdot_def)
  have c: "(\<Sum>j<?n. ?f j * s ! j) = (\<Sum>j<?n. \<Sum>i<?n. cnj (s ! i) * H ! i ! j * s ! j)"
    by (simp only: f sum_distrib_right)
  show ?thesis
    by (simp only: a b c)
qed

lemma swap_sym_sum:
  fixes t :: "nat \<Rightarrow> nat \<Rightarrow> complex"
  assumes "\<And>i j. i < n \<Longrightarrow> j < n \<Longrightarrow> cnj (t i j) = t j i"
  shows "cnj (\<Sum>j<n. \<Sum>i<n. t i j) = (\<Sum>j<n. \<Sum>i<n. t i j)"
proof -
  have "cnj (\<Sum>j<n. \<Sum>i<n. t i j) = (\<Sum>j<n. \<Sum>i<n. cnj (t i j))"
    by (simp only: cnj_sum)
  also have "\<dots> = (\<Sum>j<n. \<Sum>i<n. t j i)"
    using assms by (intro sum.cong refl) simp
  also have "\<dots> = (\<Sum>i<n. \<Sum>j<n. t j i)"
    by (rule sum.swap)
  finally show ?thesis .
qed

lemma hermitian_entry: "hermitian H \<Longrightarrow> i < length H \<Longrightarrow> j < length H \<Longrightarrow> cnj (H ! i ! j) = H ! j ! i"
  unfolding hermitian_def by (metis complex_cnj_cnj)

lemma hermitian_form_real:
  assumes "hermitian H"
  shows "cnj (\<Sum>j<length H. \<Sum>i<length H. cnj (s ! i) * H ! i ! j * s ! j) =
         (\<Sum>j<length H. \<Sum>i<length H. cnj (s ! i) * H ! i ! j * s ! j)"
proof (rule swap_sym_sum)
  fix i j assume "i < length H" "j < length H"
  then have "cnj (H ! i ! j) = H ! j ! i"
    using assms by (rule hermitian_entry [rotated])
  then show "cnj (cnj (s ! i) * H ! i ! j * s ! j) = cnj (s ! j) * H ! j ! i * s ! i"
    by (simp add: mult_ac)
qed

text \<open>
  C6. For a Hermitian matrix \<open>H\<close> and a state \<open>s\<close> of its dimension, the energy operation
  computes \<open>conj(s)\<^sup>T \<cdot> H \<cdot> s\<close> and returns its real part; the imaginary part of the inner
  product is zero, so the value returned is the whole inner product.
\<close>

theorem expected_energy_real:
  assumes "hermitian H" "length (vqe_state param) = length H"
  shows "\<exists>z. compute_E (vqe_state param) H = Inr z
           \<and> z = (\<Sum>j<length H. \<Sum>i<length H.
                    cnj (vqe_state param ! i) * H ! i ! j * vqe_state param ! j)
           \<and> Im z = 0
           \<and> compute_vqe_E vqe_state param H = Inr (Re z)
           \<and> complex_of_real (Re z) = z"
proof -
  let ?z = "\<Sum>j<length H. \<Sum>i<length H. cnj (vqe_state param ! i) * H ! i ! j * vqe_state param ! j"
  have sq: "\<forall>i < length H. length (H ! i) = length H"
    using assms(1) unfolding hermitian_def by blast
  have v: "compute_E (vqe_state param) H = Inr ?z"
    using sq assms(2) by (rule compute_E_value)
  have "cnj ?z = ?z"
    using assms(1) by (rule hermitian_form_real)
  then have "?z \<in> \<real>"
    by (simp only: Reals_cnj_iff)
  then have im: "Im ?z = 0"
    by (simp only: complex_is_Real_iff)
  then have re: "complex_of_real (Re ?z) = ?z"
    by (simp add: complex_eq_iff)
  have "compute_vqe_E vqe_state param H = Inr (Re ?z)"
    using v by (simp add: compute_vqe_E_def)
  with v im re show ?thesis
    by (intro exI [of _ ?z] conjI refl)
qed

theorem expected_energy_real_witness:
  "hermitian [[1, \<i>], [- \<i>, 2]]
   \<and> length ((\<lambda>p. [1, \<i>]) [0 :: real]) = length [[1, \<i>], [- \<i>, 2]]
   \<and> compute_E ((\<lambda>p. [1, \<i>]) [0 :: real]) [[1, \<i>], [- \<i>, 2]] = Inr 1
   \<and> compute_vqe_E (\<lambda>p. [1, \<i>]) [0] [[1, \<i>], [- \<i>, 2]] = Inr 1"
  using expected_energy_real [of "[[1, \<i>], [- \<i>, 2]]" "\<lambda>p. [1, \<i>]" "[0]"]
  by (simp add: hermitian_def All_less_Suc compute_E_def compute_vqe_E_def vecmat_def vdot_def
      ncols_def)

section \<open>The loss of the independent mode\<close>
















section \<open>Reference ground states\<close>

lemma argmin_from_props:
  "bi < i \<Longrightarrow> ys ! bi = b \<Longrightarrow> length ys = i \<Longrightarrow> \<forall>j < i. b \<le> ys ! j \<Longrightarrow>
   argmin_from b bi i xs < length (ys @ xs) \<and>
   (\<forall>j < length (ys @ xs). (ys @ xs) ! argmin_from b bi i xs \<le> (ys @ xs) ! j)"
proof (induction xs arbitrary: b bi i ys)
  case Nil
  then show ?case by auto
next
  case (Cons x xs)
  show ?case
  proof (cases "x < b")
    case True
    have "argmin_from x i (Suc i) xs < length ((ys @ [x]) @ xs) \<and>
          (\<forall>j < length ((ys @ [x]) @ xs).
              ((ys @ [x]) @ xs) ! argmin_from x i (Suc i) xs \<le> ((ys @ [x]) @ xs) ! j)"
    proof (rule Cons.IH)
      show "(ys @ [x]) ! i = x" using Cons.prems(3) [symmetric] by simp
      show "\<forall>j < Suc i. x \<le> (ys @ [x]) ! j"
        using Cons.prems True by (auto simp: nth_append less_Suc_eq)
    qed (use Cons.prems in auto)
    with True show ?thesis by simp
  next
    case False
    have "argmin_from b bi (Suc i) xs < length ((ys @ [x]) @ xs) \<and>
          (\<forall>j < length ((ys @ [x]) @ xs).
              ((ys @ [x]) @ xs) ! argmin_from b bi (Suc i) xs \<le> ((ys @ [x]) @ xs) ! j)"
    proof (rule Cons.IH)
      show "(ys @ [x]) ! bi = b" using Cons.prems by (simp add: nth_append)
      show "\<forall>j < Suc i. b \<le> (ys @ [x]) ! j"
        using Cons.prems False by (auto simp: nth_append less_Suc_eq)
    qed (use Cons.prems in auto)
    with False show ?thesis by simp
  qed
qed

lemma argmin_least:
  assumes "xs \<noteq> []"
  shows "\<exists>k. argmin xs = Inr k \<and> k < length xs \<and> (\<forall>j < length xs. xs ! k \<le> xs ! j)"
proof -
  obtain x r where xs: "xs = x # r" using assms by (cases xs) auto
  have "argmin_from x 0 1 r < length ([x] @ r) \<and>
        (\<forall>j < length ([x] @ r). ([x] @ r) ! argmin_from x 0 1 r \<le> ([x] @ r) ! j)"
    by (rule argmin_from_props) auto
  then show ?thesis using xs by (simp add: argmin_def)
qed

lemma collect_all_Inr:
  "\<forall>x \<in> set xs. \<exists>y. f x = Inr y \<Longrightarrow>
   \<exists>ys. collect (map f xs) = Inr ys \<and> length ys = length xs \<and>
        (\<forall>i < length xs. f (xs ! i) = Inr (ys ! i))"
proof (induction xs)
  case Nil
  show ?case by simp
next
  case (Cons x xs)
  from Cons.prems obtain y where y: "f x = Inr y" by auto
  from Cons obtain ys where ys: "collect (map f xs) = Inr ys" "length ys = length xs"
    "\<forall>i < length xs. f (xs ! i) = Inr (ys ! i)" by auto
  have "\<forall>i < length (x # xs). f ((x # xs) ! i) = Inr ((y # ys) ! i)"
    using y ys(3) by (auto simp: nth_Cons split: nat.splits)
  with y ys(1,2) show ?case by (intro exI [of _ "y # ys"]) simp
qed

lemma compute_true_state_ground:
  assumes ne: "H \<noteq> []" and spec: "eigh_spec H (eigh H)"
  shows "\<exists>g. compute_true_state eigh H = Inr g \<and> is_ground_state H (eigh H) g"
proof -
  obtain eigval eigvec where e: "eigh H = (eigval, eigvec)" by (cases "eigh H")
  let ?n = "length H"
  from spec e have len: "length eigval = ?n" "length eigvec = ?n"
    and rows: "\<forall>i < ?n. length (eigvec ! i) = ?n"
    and eig: "\<forall>k < ?n. \<forall>i < ?n.
        (\<Sum>j < ?n. H ! i ! j * eigvec ! j ! k) = of_real (eigval ! k) * eigvec ! i ! k"
    and orth: "\<forall>k < ?n. \<forall>l < ?n.
        (\<Sum>i < ?n. cnj (eigvec ! i ! k) * eigvec ! i ! l) = (if k = l then 1 else 0)"
    by (simp_all add: eigh_spec_def)
  from ne len(1) have "eigval \<noteq> []" by auto
  then obtain k where k: "argmin eigval = Inr k" "k < length eigval"
    "\<forall>j < length eigval. eigval ! k \<le> eigval ! j"
    using argmin_least by blast
  let ?g = "map (\<lambda>row. row ! k) eigvec"
  have "map (\<lambda>row. row ! min k (length row - 1)) eigvec = ?g"
  proof (rule map_cong [OF refl])
    fix row assume "row \<in> set eigvec"
    then obtain i where "i < length eigvec" "row = eigvec ! i" by (auto simp: in_set_conv_nth)
    with rows len k(2) have "k < length row" by simp
    then have "min k (length row - 1) = k" by arith
    then show "row ! min k (length row - 1) = row ! k" by (simp only:)
  qed
  then have val: "compute_true_state eigh H = Inr ?g"
    using e k(1) by (simp add: compute_true_state_def)
  have nth: "?g ! j = eigvec ! j ! k" if "j < ?n" for j
    using that len(2) by simp
  have kn: "k < ?n" using k(2) len(1) by simp
  have eqn: "\<forall>r < ?n. (\<Sum>j < ?n. H ! r ! j * ?g ! j) = of_real (eigval ! k) * ?g ! r"
  proof (intro allI impI)
    fix r assume r: "r < ?n"
    have "(\<Sum>j < ?n. H ! r ! j * ?g ! j) = (\<Sum>j < ?n. H ! r ! j * eigvec ! j ! k)"
      by (intro sum.cong refl) (simp add: nth)
    also have "\<dots> = of_real (eigval ! k) * eigvec ! r ! k"
      using eig kn r by blast
    finally show "(\<Sum>j < ?n. H ! r ! j * ?g ! j) = of_real (eigval ! k) * ?g ! r"
      using r by (simp add: nth)
  qed
  have nrm: "(\<Sum>i < ?n. cnj (?g ! i) * ?g ! i) = 1"
  proof -
    have "(\<Sum>i < ?n. cnj (?g ! i) * ?g ! i) = (\<Sum>i < ?n. cnj (eigvec ! i ! k) * eigvec ! i ! k)"
      by (intro sum.cong refl) (simp add: nth)
    also have "\<dots> = 1" using orth kn by simp
    finally show ?thesis .
  qed
  have "is_ground_state H (eigh H) ?g"
    unfolding is_ground_state_def e
    using len k(2,3) eqn nrm by auto
  with val show ?thesis by blast
qed

lemma cmod_one_of_cnj_mult:
  assumes "cnj z * z = 1"
  shows "cmod z = 1"
proof -
  have "complex_of_real ((cmod z)\<^sup>2) = 1"
    using assms complex_norm_square [of z] by (simp add: mult.commute)
  then have "(cmod z)\<^sup>2 = 1"
    using of_real_eq_1_iff by blast
  then show ?thesis
    using norm_ge_zero [of z] by (auto simp: power2_eq_1_iff)
qed

lemma eigen_pm:
  fixes x y :: complex and lam :: real
  assumes ex: "x = of_real lam * x" and ey: "- y = of_real lam * y"
    and nrm: "cnj x * x + cnj y * y = 1"
  shows "(lam = 1 \<and> y = 0 \<and> cmod x = 1) \<or> (lam = - 1 \<and> x = 0 \<and> cmod y = 1)"
proof (cases "x = 0")
  case True
  with nrm have ny: "cnj y * y = 1" by simp
  then have y0: "y \<noteq> 0" by auto
  have ey': "of_real lam * y = - y"
    by (rule ey [symmetric])
  have "(of_real lam + 1) * y = of_real lam * y + y"
    by (simp add: algebra_simps)
  then have "(of_real lam + 1) * y = 0"
    by (simp add: ey')
  with y0 have "complex_of_real lam + 1 = 0"
    by simp
  then have "complex_of_real lam = - 1"
    by (simp only: add_eq_0_iff2)
  then have "complex_of_real lam = of_real (- 1)" by simp
  then have "lam = - 1" by (simp only: of_real_eq_iff)
  with True ny show ?thesis by (simp add: cmod_one_of_cnj_mult)
next
  case False
  have ex': "of_real lam * x = x"
    by (rule ex [symmetric])
  have "(of_real lam - 1) * x = of_real lam * x - x"
    by (simp add: algebra_simps)
  then have "(of_real lam - 1) * x = 0"
    by (simp add: ex')
  with False have "complex_of_real lam = 1" by simp
  then have lam: "lam = 1" by simp
  with ey have "y = 0" by simp
  with nrm have "cnj x * x = 1" by simp
  then have "cmod x = 1" by (rule cmod_one_of_cnj_mult)
  with lam \<open>y = 0\<close> show ?thesis by simp
qed

lemma diag_ground:
  assumes spec: "eigh_spec [[1, 0], [0, - 1]] (eigval, eigvec)"
    and g: "is_ground_state [[1, 0], [0, - 1]] (eigval, eigvec) g"
  shows "(\<exists>c. cmod c = 1 \<and> g = [0, c]) \<and> compute_E g [[1, 0], [0, - 1]] = Inr (- 1)"
proof -
  have len: "length eigval = 2"
    using spec by (simp add: eigh_spec_def)
  have col: "(eigval ! l = 1 \<and> eigvec ! 1 ! l = 0 \<and> cmod (eigvec ! 0 ! l) = 1) \<or>
             (eigval ! l = - 1 \<and> eigvec ! 0 ! l = 0 \<and> cmod (eigvec ! 1 ! l) = 1)"
    if "l = 0 \<or> l = 1" for l
  proof (rule eigen_pm)
    show "eigvec ! 0 ! l = of_real (eigval ! l) * eigvec ! 0 ! l"
      using spec that by (auto simp: eigh_spec_def All_less_Suc)
    show "- eigvec ! 1 ! l = of_real (eigval ! l) * eigvec ! 1 ! l"
      using spec that by (auto simp: eigh_spec_def All_less_Suc)
    show "cnj (eigvec ! 0 ! l) * eigvec ! 0 ! l + cnj (eigvec ! 1 ! l) * eigvec ! 1 ! l = 1"
      using spec that by (auto simp: eigh_spec_def All_less_Suc)
  qed
  have orth: "cnj (eigvec ! 0 ! 0) * eigvec ! 0 ! 1 + cnj (eigvec ! 1 ! 0) * eigvec ! 1 ! 1 = 0"
    using spec by (simp add: eigh_spec_def All_less_Suc)
  have ex: "eigval ! 0 = - 1 \<or> eigval ! 1 = - 1"
  proof (rule ccontr)
    assume n: "\<not> (eigval ! 0 = - 1 \<or> eigval ! 1 = - 1)"
    from col [of 0] n have a: "eigvec ! 1 ! 0 = 0" "cmod (eigvec ! 0 ! 0) = 1" by auto
    from col [of 1] n have b: "eigvec ! 1 ! 1 = 0" "cmod (eigvec ! 0 ! 1) = 1" by auto
    from orth a(1) have "cnj (eigvec ! 0 ! 0) * eigvec ! 0 ! 1 = 0" by simp
    then have "cmod (cnj (eigvec ! 0 ! 0) * eigvec ! 0 ! 1) = 0" by simp
    then show False using a(2) b(2) by (simp add: norm_mult)
  qed
  let ?D = "[[1, 0], [0, - 1 :: complex]]"
  from g have G: "length g = length ?D \<and>
      (\<Sum>i < length ?D. cnj (g ! i) * g ! i) = 1 \<and>
      (\<exists>k < length eigval.
          g = map (\<lambda>row. row ! k) eigvec \<and>
          (\<forall>j < length eigval. eigval ! k \<le> eigval ! j) \<and>
          (\<forall>i < length ?D. (\<Sum>j < length ?D. ?D ! i ! j * g ! j) = of_real (eigval ! k) * g ! i))"
    unfolding is_ground_state_def prod.case .
  then obtain k where k: "k < length eigval" "\<forall>j < length eigval. eigval ! k \<le> eigval ! j"
    and ge: "\<forall>i < length ?D. (\<Sum>j < length ?D. ?D ! i ! j * g ! j) = of_real (eigval ! k) * g ! i"
    by blast
  from G have gl: "length g = 2" by simp
  from G have gn: "(\<Sum>i < length ?D. cnj (g ! i) * g ! i) = 1" by blast
  from gl obtain a b where ab: "g = [a, b]"
    by (cases g; cases "tl g") auto
  have le: "eigval ! k \<le> - 1"
    using ex k(2) len by (auto simp: All_less_Suc numeral_2_eq_2)
  have "(eigval ! k = 1 \<and> b = 0 \<and> cmod a = 1) \<or> (eigval ! k = - 1 \<and> a = 0 \<and> cmod b = 1)"
  proof (rule eigen_pm)
    show "a = of_real (eigval ! k) * a"
      using ge ab by (simp add: All_less_Suc)
    show "- b = of_real (eigval ! k) * b"
      using ge ab by (simp add: All_less_Suc)
    show "cnj a * a + cnj b * b = 1"
      using gn ab by simp
  qed
  with le have a0: "a = 0" and b1: "cmod b = 1" by auto
  have "cnj b * b = 1"
    using b1 complex_norm_square [of b] by (simp add: mult.commute)
  then have "compute_E g [[1, 0], [0, - 1]] = Inr (- 1)"
    using ab a0 by (simp add: compute_E_def vecmat_def vdot_def ncols_def)
  with ab a0 b1 show ?thesis by auto
qed

text \<open>
  C7. With an eigensolver that returns an orthonormal eigendecomposition of every matrix of a
  non-empty-dimensional grid, the reference computation succeeds on the whole grid (repeated
  eigenvalues included), returns one state per Hamiltonian in grid order, and each state is an
  eigenvector of its Hamiltonian for the least eigenvalue. For the Hamiltonian \<open>diag(1, -1)\<close>
  the state is \<open>[0, c]\<close> with \<open>|c| = 1\<close> and its energy is \<open>-1\<close>.
\<close>

theorem reference_ground_states:
  assumes "\<forall>H \<in> set grid. H \<noteq> [] \<and> eigh_spec H (eigh H)"
  shows "\<exists>ts. jv_compute_true_state eigh grid = Inr ts \<and> length ts = length grid \<and>
           (\<forall>i < length grid.
               compute_true_state eigh (grid ! i) = Inr (ts ! i) \<and>
               is_ground_state (grid ! i) (eigh (grid ! i)) (ts ! i) \<and>
               (grid ! i = [[1, 0], [0, - 1]] \<longrightarrow>
                  (\<exists>c. cmod c = 1 \<and> ts ! i = [0, c]) \<and>
                  compute_E (ts ! i) (grid ! i) = Inr (- 1)))"
proof -
  have "\<forall>H \<in> set grid. \<exists>g. compute_true_state eigh H = Inr g"
    using assms compute_true_state_ground by blast
  then obtain ts where ts: "collect (map (compute_true_state eigh) grid) = Inr ts"
    "length ts = length grid"
    "\<forall>i < length grid. compute_true_state eigh (grid ! i) = Inr (ts ! i)"
    using collect_all_Inr [of grid "compute_true_state eigh"] by blast
  have each: "is_ground_state (grid ! i) (eigh (grid ! i)) (ts ! i) \<and>
              (grid ! i = [[1, 0], [0, - 1]] \<longrightarrow>
                 (\<exists>c. cmod c = 1 \<and> ts ! i = [0, c]) \<and>
                 compute_E (ts ! i) (grid ! i) = Inr (- 1))"
    if i: "i < length grid" for i
  proof -
    let ?H = "grid ! i"
    from i assms have h: "?H \<noteq> []" "eigh_spec ?H (eigh ?H)" by auto
    from compute_true_state_ground [of "?H" eigh, OF h] ts(3) i
    have gs: "is_ground_state ?H (eigh ?H) (ts ! i)" by auto
    have "(\<exists>c. cmod c = 1 \<and> ts ! i = [0, c]) \<and> compute_E (ts ! i) ?H = Inr (- 1)"
      if d: "?H = [[1, 0], [0, - 1]]"
    proof -
      obtain eigval eigvec where e: "eigh [[1, 0], [0, - 1]] = (eigval, eigvec)"
        by (cases "eigh [[1, 0], [0, - 1]]")
      from h(2) gs show ?thesis
        unfolding d e by (rule diag_ground)
    qed
    with gs show ?thesis by blast
  qed
  show ?thesis
    using ts(1,2,3) each
    by (intro exI [of _ ts]) (simp add: jv_compute_true_state_def)
qed

theorem reference_ground_states_witness:
  "eigh_spec [[1, 0], [0, - 1]]
     ((\<lambda>H :: complex list list. if H = [[1, 0], [0, - 1]] then ([- 1, 1], [[0, 1], [1, 0]])
            else ([2, 2], [[1, 0], [0, 1]])) [[1, 0], [0, - 1]])
   \<and> eigh_spec [[2, 0], [0, 2]]
     ((\<lambda>H :: complex list list. if H = [[1, 0], [0, - 1]] then ([- 1, 1], [[0, 1], [1, 0]])
            else ([2, 2], [[1, 0], [0, 1]])) [[2, 0], [0, 2]])
   \<and> jv_compute_true_state
        (\<lambda>H :: complex list list. if H = [[1, 0], [0, - 1]] then ([- 1, 1], [[0, 1], [1, 0]])
              else ([2, 2], [[1, 0], [0, 1]]))
        [[[1, 0], [0, - 1]], [[2, 0], [0, 2]]] = Inr [[0, 1], [1, 0]]
   \<and> cmod 1 = 1
   \<and> compute_E [0, 1] [[1, 0], [0, - 1]] = Inr (- 1)"
  using reference_ground_states [of "[[[1, 0], [0, - 1]], [[2, 0], [0, 2]]]"
      "\<lambda>H :: complex list list. if H = [[1, 0], [0, - 1]] then ([- 1, 1], [[0, 1], [1, 0]])
           else ([2, 2], [[1, 0], [0, 1]])"]
  by (simp add: eigh_spec_def All_less_Suc jv_compute_true_state_def compute_true_state_def
      argmin_def compute_E_def vecmat_def vdot_def ncols_def)

section \<open>The recycle mode\<close>

lemma recycle_point_other:
  assumes "recycle_point bk vs H lr n reg idx (p, prev, ps) = Inr (p', prev', ps')"
  shows "length ps' = length ps \<and> (\<forall>j. j \<noteq> idx \<longrightarrow> ps' ! j = ps ! j)"
  using assms unfolding recycle_point_def
  by (auto split: sum.splits prod.splits if_splits)

lemma recycle_loop_untouched:
  assumes "foldE (recycle_point bk vs H lr n reg) idxs (p, prev, ps) = Inr (p', prev', ps')"
    and "j \<notin> set idxs"
  shows "length ps' = length ps \<and> ps' ! j = ps ! j"
  using assms
proof (induction idxs arbitrary: p prev ps)
  case Nil
  then show ?case by simp
next
  case (Cons i idxs)
  from Cons.prems(1) obtain q prev1 ps1
    where s: "recycle_point bk vs H lr n reg i (p, prev, ps) = Inr (q, prev1, ps1)"
      and r: "foldE (recycle_point bk vs H lr n reg) idxs (q, prev1, ps1) = Inr (p', prev', ps')"
    by (auto split: sum.splits)
  from Cons.prems(2) have ji: "j \<noteq> i" and jn: "j \<notin> set idxs" by auto
  from recycle_point_other [OF s] ji have "length ps1 = length ps" "ps1 ! j = ps ! j" by auto
  with Cons.IH [OF r jn] show ?case by simp
qed

lemma finalize_params:
  assumes "finalize bk e oom m ps = Inr x"
  shows "vqe_params x = ps \<and> MSE x = m"
  using assms unfolding finalize_def Let_def by (auto split: sum.splits)

text \<open>
  C1, evaluated on the code. The recycle mode starts with \<open>idx = 0\<close> whatever the first entry of
  the traversal rule is: the phase of \<open>10 * n_epochs\<close> steps runs on the Hamiltonian at index 0,
  and the loop then visits the entries of the rule after the first. A grid point that is neither
  0 nor among those entries is never optimized: it keeps the row of zeros the list of
  parameters was created with. For the rule \<open>[2, 0, 3, 1]\<close> this is the point 2, which the rule
  names first.
\<close>

theorem recycle_first_point:
  assumes "train_recycle bk e lr n_epochs reg rng = Inr (x, rng')"
  shows "(\<exists>p s. recycle_first bk (state_after (circuit_fun e) (N e)) (Hs e) lr n_epochs 0
                  (fst (np_rand bk (n_params e) rng)) = Inr (p, s))
       \<and> (\<forall>j < n_states e. j \<noteq> 0 \<and> j \<notin> set (tl (recycle_rule (Hs e))) \<longrightarrow>
             vqe_params x ! j = replicate (n_params e) 0)"
proof -
  let ?vs = "state_after (circuit_fun e) (N e)"
  let ?ps0 = "replicate (n_states e) (replicate (n_params e) (0::real))"
  obtain param0 r where rnd: "np_rand bk (n_params e) rng = (param0, r)"
    by (cases "np_rand bk (n_params e) rng")
  from assms rnd obtain p s p' prev' ps' where
    first: "recycle_first bk ?vs (Hs e) lr n_epochs 0 param0 = Inr (p, s)"
    and loop: "foldE (recycle_point bk ?vs (Hs e) lr n_epochs reg) (tl (recycle_rule (Hs e)))
                 (p, ?vs p, ?ps0[0 := p]) = Inr (p', prev', ps')"
    and fin: "finalize bk (e\<lparr>true_states := Some (projr (jv_compute_true_state (lib_eigh bk) (mat_Hs (Hs e)))),
                 recycle := True\<rparr>) False [] ps' = Inr x"
    unfolding train_recycle_def Let_def
    by (auto split: sum.splits prod.splits if_splits)
  from finalize_params [OF fin] have px: "vqe_params x = ps'" by simp
  have "vqe_params x ! j = replicate (n_params e) 0"
    if "j < n_states e" "j \<noteq> 0" "j \<notin> set (tl (recycle_rule (Hs e)))" for j
  proof -
    from recycle_loop_untouched [OF loop that(3)] have "ps' ! j = (?ps0[0 := p]) ! j" by simp
    also have "\<dots> = replicate (n_params e) 0" using that(1,2) by simp
    finally show ?thesis using px by simp
  qed
  moreover have "\<exists>p s. recycle_first bk ?vs (Hs e) lr n_epochs 0
                  (fst (np_rand bk (n_params e) rng)) = Inr (p, s)"
    using first rnd by auto
  ultimately show ?thesis by blast
qed

text \<open>The run on the instance with the rule \<open>[2, 0, 3, 1]\<close>.\<close>

lemma replicate4: "replicate 4 x = [x, x, x, x]"
  by (simp add: numeral_eq_Suc)

lemma example_init4:
  "vqe_init (example_backend oracle) example_grid4 (example_circuit (\<lambda>p. [1])) 0
     = Inr (example_engine4, 1)"
  by (simp add: vqe_init_def example_backend_def example_circuit_def example_grid4_def
      example_engine4_def replicate4)

lemma example_true4:
  "jv_compute_true_state example_eigh [[[0]], [[1]], [[2]], [[3]]] = Inr [[1], [1], [1], [1]]"
  by (simp add: jv_compute_true_state_def compute_true_state_def example_eigh_def argmin_def)

lemma example_E1: "compute_E [1] [[h]] = Inr h"
  by (simp add: compute_E_def vecmat_def vdot_def ncols_def)

lemma example_first4:
  "recycle_first (example_backend oracle) (\<lambda>p. [1]) example_grid4 1 (Suc 0) 0 [1 / 2]
     = Inr ([21 / 2], [[21 / 2]])"
  by (simp add: recycle_first_def example_backend_def example_grid4_def nth_E_def update_v_def
      loss_single_def example_E1 upt_rec Let_def)

lemma example_E4:
  assumes "idx < 4"
  shows "\<exists>h. compute_E [1] ([[[0]], [[1]], [[2]], [[3]]] ! idx) = Inr h"
proof -
  from assms have "idx = 0 \<or> idx = 1 \<or> idx = 2 \<or> idx = 3" by arith
  then show ?thesis by (auto simp add: example_E1)
qed

lemma example_point4:
  assumes "idx < 4" "length ps = 4"
  shows "recycle_point (example_backend oracle) (\<lambda>p. [1]) example_grid4 1 (Suc 0) 0 idx ([a], [1], ps)
     = Inr ([a + 1], [1], ps[idx := [a + 1]])"
proof -
  from example_E4 [OF assms(1)] obtain h
    where h: "compute_E [1] ([[[0]], [[1]], [[2]], [[3]]] ! idx) = Inr h" by blast
  show ?thesis
    using assms
    by (simp add: recycle_point_def example_backend_def example_grid4_def nth_E_def update_v_def
        loss_reg_def h vqe_fidelty_def vdot_def Let_def)
qed

lemma example_energies4:
  "v_compute_vqe_E (\<lambda>p. [1]) [[[0]], [[1]], [[2]], [[3]]] [a, b, c, d] = Inr [0, 1, 2, 3]"
  by (simp add: v_compute_vqe_E_def vmap2_def compute_vqe_E_def example_E1)

lemma example_recycle_run:
  "map_sum id (\<lambda>(x, r). vqe_params x)
     (train_recycle (example_backend (\<lambda>s. False)) example_engine4 1 1 0 1)
   = Inr [[23 / 2], [27 / 2], [0], [25 / 2]]"
  by (simp add: train_recycle_def Let_def example_engine4_def example_circuit_def example_first4
      example_point4 finalize_def j_v_compute_vqe_E_def example_energies4 replicate4
      example_grid4_def [THEN arg_cong, of recycle_rule] example_grid4_def [THEN arg_cong, of mat_Hs]
      example_backend_def [THEN arg_cong, of lib_eigh] example_backend_def [THEN arg_cong, of np_rand] 
      example_backend_def [THEN arg_cong, of raises] example_true4)

theorem recycle_first_point_witness:
  "map_sum id (\<lambda>(x, r). vqe_params x)
     (train_recycle (example_backend (\<lambda>s. False)) example_engine4 1 1 0 1)
     = Inr [[23 / 2], [27 / 2], [0], [25 / 2]]
   \<and> map_sum id (\<lambda>(x, r). vqe_params x ! 2)
     (train_recycle (example_backend (\<lambda>s. False)) example_engine4 1 1 0 1)
     = Inr (replicate (n_params example_engine4) 0)
   \<and> recycle_rule (Hs example_engine4) = [2, 0, 3, 1]"
proof -
  let ?t = "train_recycle (example_backend (\<lambda>s. False)) example_engine4 1 1 0 1"
  from example_recycle_run obtain x r where run: "?t = Inr (x, r)"
    and px: "vqe_params x = [[23 / 2], [27 / 2], [0], [25 / 2]]"
    by (cases ?t) auto
  from recycle_first_point [OF run]
  have "\<forall>j < n_states example_engine4.
          j \<noteq> 0 \<and> j \<notin> set (tl (recycle_rule (Hs example_engine4))) \<longrightarrow>
          vqe_params x ! j = replicate (n_params example_engine4) 0"
    by blast
  then have "vqe_params x ! 2 = replicate (n_params example_engine4) 0"
    by (simp add: example_engine4_def example_grid4_def)
  with run px show ?thesis
    by (simp add: example_engine4_def example_grid4_def)
qed

section \<open>Initialization\<close>

text \<open>
  C8. \<open>vqe(Hs, circuit)\<close> obtains \<open>n_params\<close> as the value of the one call of the circuit on the
  placeholder \<open>[0] * 10000\<close>: for a circuit that reads \<open>k\<close> parameters this is \<open>k\<close> when the
  placeholder holds them (\<open>k \<le> 10000\<close>), and the constructor raises otherwise. The parameter
  tensor is then the array that one call \<open>uniform(-\<pi>, \<pi>, size=(n_states, n_params))\<close> of the
  generator returns: \<open>n_states\<close> rows of \<open>n_params\<close> entries, each between \<open>-\<pi>\<close> and \<open>\<pi>\<close>.
\<close>

theorem init_parameters:
  assumes "consumes c (Hs_N H) k" and "uniform_spec bk"
  shows "(k \<le> 10000 \<longrightarrow>
           (\<exists>e rng'. vqe_init bk H c rng = Inr (e, rng')
              \<and> consumed c (Hs_N H) (replicate 10000 0) = Inr (n_params e)
              \<and> n_params e = k
              \<and> (vqe_params e, rng') = np_uniform bk (- pi) pi (Hs_n_states H, n_params e) rng
              \<and> length (vqe_params e) = Hs_n_states H
              \<and> (\<forall>row \<in> set (vqe_params e).
                    length row = n_params e \<and> (\<forall>x \<in> set row. - pi \<le> x \<and> x \<le> pi))
              \<and> N e = Hs_N H \<and> n_states e = Hs_n_states H \<and> Hs e = H \<and> circuit_fun e = c
              \<and> MSE e = [] \<and> vqe_e e = [] \<and> \<not> recycle e))
       \<and> (10000 < k \<longrightarrow> vqe_init bk H c rng = Inl IndexError)"
proof (intro conjI impI)
  assume k: "k \<le> 10000"
  from assms(1) k have cnt: "consumed c (Hs_N H) (replicate 10000 0) = Inr k"
    unfolding consumes_def by simp
  obtain ps rng' where u: "np_uniform bk (- pi) pi (Hs_n_states H, k) rng = (ps, rng')"
    by (cases "np_uniform bk (- pi) pi (Hs_n_states H, k) rng")
  have lt: "- pi < pi" using pi_gt_zero by linarith
  from assms(2) lt u have shape: "length ps = Hs_n_states H"
    and rows: "\<forall>row \<in> set ps. length row = k \<and> (\<forall>x \<in> set row. - pi \<le> x \<and> x < pi)"
    unfolding uniform_spec_def by (metis fst_conv)+
  let ?e = "\<lparr>N = Hs_N H, Hs = H, n_states = Hs_n_states H, circuit_fun = c,
             n_params = k, vqe_params = ps, MSE = [], vqe_e = [], recycle = False,
             states_dist = [], true_states = None, states = None, trajectory = []\<rparr>"
  have init: "vqe_init bk H c rng = Inr (?e, rng')"
    by (simp add: vqe_init_def cnt u)
  have rows': "\<forall>row \<in> set ps. length row = k \<and> (\<forall>x \<in> set row. - pi \<le> x \<and> x \<le> pi)"
    using rows by (meson less_imp_le)
  from init cnt u shape rows'
  show "\<exists>e rng'. vqe_init bk H c rng = Inr (e, rng')
              \<and> consumed c (Hs_N H) (replicate 10000 0) = Inr (n_params e)
              \<and> n_params e = k
              \<and> (vqe_params e, rng') = np_uniform bk (- pi) pi (Hs_n_states H, n_params e) rng
              \<and> length (vqe_params e) = Hs_n_states H
              \<and> (\<forall>row \<in> set (vqe_params e).
                    length row = n_params e \<and> (\<forall>x \<in> set row. - pi \<le> x \<and> x \<le> pi))
              \<and> N e = Hs_N H \<and> n_states e = Hs_n_states H \<and> Hs e = H \<and> circuit_fun e = c
              \<and> MSE e = [] \<and> vqe_e e = [] \<and> \<not> recycle e"
    by (intro exI [of _ ?e] exI [of _ rng']) simp
next
  assume "10000 < k"
  with assms(1) have "consumed c (Hs_N H) (replicate 10000 0) = Inl IndexError"
    unfolding consumes_def by simp
  then show "vqe_init bk H c rng = Inl IndexError"
    by (simp add: vqe_init_def)
qed

lemma example_consumes: "consumes (example_circuit f) n 1"
  by (simp add: consumes_def example_circuit_def)

lemma example_uniform:
  "uniform_spec (bk\<lparr>np_uniform := (\<lambda>lo hi (r, c) rng. (replicate r (replicate c lo), Suc rng))\<rparr>)"
  by (simp add: uniform_spec_def)

theorem init_parameters_witness:
  "consumes (example_circuit (\<lambda>p. [1])) (Hs_N example_grid4) 1
   \<and> uniform_spec ((example_backend (\<lambda>s. False))
        \<lparr>np_uniform := (\<lambda>lo hi (r, c) rng. (replicate r (replicate c lo), Suc rng))\<rparr>)
   \<and> (1 :: nat) \<le> 10000
   \<and> map_sum id (\<lambda>(e, rng'). (n_params e, vqe_params e, rng'))
       (vqe_init ((example_backend (\<lambda>s. False))
           \<lparr>np_uniform := (\<lambda>lo hi (r, c) rng. (replicate r (replicate c lo), Suc rng))\<rparr>)
          example_grid4 (example_circuit (\<lambda>p. [1])) 0)
       = Inr (1, [[- pi], [- pi], [- pi], [- pi]], 1)
   \<and> consumed (example_circuit (\<lambda>p. [1])) (Hs_N example_grid4) (replicate 10000 0) = Inr 1"
proof -
  let ?bk = "(example_backend (\<lambda>s. False))
        \<lparr>np_uniform := (\<lambda>lo hi (r, c) rng. (replicate r (replicate c lo), Suc rng))\<rparr>"
  let ?c = "example_circuit (\<lambda>p. [1])"
  have a: "consumes ?c (Hs_N example_grid4) 1" by (rule example_consumes)
  have b: "uniform_spec ?bk" by (rule example_uniform)
  from init_parameters [OF a b, of 0]
  obtain e rng' where i: "vqe_init ?bk example_grid4 ?c 0 = Inr (e, rng')"
    and n: "n_params e = 1"
    and c: "consumed ?c (Hs_N example_grid4) (replicate 10000 0) = Inr (n_params e)"
    and u: "(vqe_params e, rng') = np_uniform ?bk (- pi) pi (Hs_n_states example_grid4, n_params e) 0"
    by auto
  from u n have "vqe_params e = [[- pi], [- pi], [- pi], [- pi]] \<and> rng' = 1"
    by (simp add: example_grid4_def replicate4)
  with a b i n c show ?thesis by simp
qed

section \<open>The loop of the independent mode\<close>

lemma diagnostics_effect:
  assumes "diagnostics bk vs H true it st = Inr st'"
  shows "l_params st' = l_params st \<and> l_opt st' = l_opt st \<and> l_traj st' = l_traj st
       \<and> (\<exists>es m f. v_compute_vqe_E vs (mat_Hs H) (l_params st) = Inr es
              \<and> mse es (true_e H) = Inr m
              \<and> vqe_fidelties true (l_params st) vs = Inr f
              \<and> l_MSE st' = l_MSE st @ [m]
              \<and> l_shown st' = l_shown st @ [(m, f)])"
proof -
  let ?fb = "v_compute_vqe_E vs (mat_Hs H) (l_params st)"
  obtain oom' energies where r:
    "(if \<not> l_oom st
      then (case j_v_compute_vqe_E bk (Energies it) vs (mat_Hs H) (l_params st) of
              Inl RuntimeError \<Rightarrow> (True, ?fb)
            | Inl e \<Rightarrow> (False, Inl e)
            | Inr es \<Rightarrow> (False, Inr es))
      else (True, ?fb)) = (oom', energies)"
    by (cases "(if \<not> l_oom st
      then (case j_v_compute_vqe_E bk (Energies it) vs (mat_Hs H) (l_params st) of
              Inl RuntimeError \<Rightarrow> (True, ?fb)
            | Inl e \<Rightarrow> (False, Inl e)
            | Inr es \<Rightarrow> (False, Inr es))
      else (True, ?fb))")
  from assms r obtain es m f where es: "energies = Inr es"
    and m: "mse es (true_e H) = Inr m"
    and f: "jv_fidelties bk (Fidelity it) vs true (l_params st) = Inr f"
    and st': "st' = st\<lparr>l_oom := oom', l_MSE := l_MSE st @ [m], l_shown := l_shown st @ [(m, f)]\<rparr>"
    unfolding diagnostics_def Let_def
    by (auto split: sum.splits)
  from r es have fb: "?fb = Inr es"
    unfolding j_v_compute_vqe_E_def
    by (auto split: if_splits sum.splits error.splits)
  from f have fid: "vqe_fidelties true (l_params st) vs = Inr f"
    unfolding jv_fidelties_def by (auto split: if_splits)
  from fb m fid st' show ?thesis by simp
qed

lemma ind_epoch_effect:
  assumes "ind_epoch bk vs H true lr reg sv ebs it st = Inr st'"
  shows "0 < ebs
       \<and> ((it + 1) mod ebs = 0 \<longrightarrow>
            (\<exists>es m f. v_compute_vqe_E vs (mat_Hs H) (l_params st') = Inr es
               \<and> mse es (true_e H) = Inr m
               \<and> vqe_fidelties true (l_params st') vs = Inr f
               \<and> l_MSE st' = l_MSE st @ [m]
               \<and> l_shown st' = l_shown st @ [(m, f)]))
       \<and> ((it + 1) mod ebs \<noteq> 0 \<longrightarrow> l_MSE st' = l_MSE st \<and> l_shown st' = l_shown st)"
proof -
  from assms obtain params opt_state where
    u: "update_m bk (loss vs (mat_Hs H) reg) lr (l_params st) (l_opt st) = Inr (params, opt_state)"
    unfolding ind_epoch_def by (auto split: sum.splits)
  let ?st1 = "st\<lparr>l_params := params, l_opt := opt_state\<rparr>"
  from assms u have pos: "0 < ebs"
    unfolding ind_epoch_def Let_def by (auto split: if_splits)
  from assms u pos obtain st2 where
    d: "(if (it + 1) mod ebs = 0 then diagnostics bk vs H true it ?st1 else Inr ?st1) = Inr st2"
    and st': "st' = (if it mod 10 = 0 \<and> sv then st2\<lparr>l_traj := l_traj st2 @ [params]\<rparr> else st2)"
    unfolding ind_epoch_def Let_def by (auto split: if_splits sum.splits)
  show ?thesis
  proof (cases "(it + 1) mod ebs = 0")
    case True
    with d have "diagnostics bk vs H true it ?st1 = Inr st2" by simp
    from diagnostics_effect [OF this] st' True pos show ?thesis by auto
  next
    case False
    with d have "st2 = ?st1" by simp
    with st' False pos show ?thesis by auto
  qed
qed

lemma foldE_append:
  "foldE f (xs @ ys) s = (case foldE f xs s of Inl e \<Rightarrow> Inl e | Inr s' \<Rightarrow> foldE f ys s')"
  by (induction xs arbitrary: s) (auto split: sum.splits)

lemma ind_run_Suc:
  "ind_run bk e true lr reg sv ebs (Suc k) =
     (case ind_run bk e true lr reg sv ebs k of
        Inl er \<Rightarrow> Inl er
      | Inr st \<Rightarrow>
          ind_epoch bk (state_after (circuit_fun e) (N e)) (Hs e) true lr reg sv ebs k st)"
  unfolding ind_run_def by (simp add: foldE_append split: sum.splits)

lemma ind_run_0:
  "ind_run bk e true lr reg sv ebs 0 = Inr st \<Longrightarrow> l_MSE st = [] \<and> l_shown st = []"
  unfolding ind_run_def by auto

lemma ind_run_earlier:
  assumes "ind_run bk e true lr reg sv ebs n = Inr sn" "k \<le> n"
  shows "\<exists>sk. ind_run bk e true lr reg sv ebs k = Inr sk"
  using assms
proof (induction n arbitrary: sn)
  case 0
  then show ?case by simp
next
  case (Suc n)
  from Suc.prems(1) obtain s where s: "ind_run bk e true lr reg sv ebs n = Inr s"
    by (auto simp add: ind_run_Suc split: sum.splits)
  show ?case
  proof (cases "k = Suc n")
    case True
    with Suc.prems(1) show ?thesis by blast
  next
    case False
    with Suc.prems(2) have "k \<le> n" by simp
    from Suc.IH [OF s this] show ?thesis .
  qed
qed

lemma ind_run_count:
  assumes "ind_run bk e true lr reg sv ebs k = Inr st" "0 < ebs"
  shows "length (l_MSE st) = k div ebs \<and> map fst (l_shown st) = l_MSE st"
  using assms(1)
proof (induction k arbitrary: st)
  case 0
  from ind_run_0 [OF 0] show ?case by simp
next
  case (Suc k)
  from Suc.prems obtain s where s: "ind_run bk e true lr reg sv ebs k = Inr s"
    and ep: "ind_epoch bk (state_after (circuit_fun e) (N e)) (Hs e) true lr reg sv ebs k s = Inr st"
    by (auto simp add: ind_run_Suc split: sum.splits)
  from Suc.IH [OF s] have ih: "length (l_MSE s) = k div ebs" "map fst (l_shown s) = l_MSE s"
    by simp_all
  from ind_epoch_effect [OF ep] ih show ?case
    by (cases "Suc k mod ebs = 0") (auto simp add: div_Suc)
qed

lemma ind_run_prefix:
  assumes "ind_run bk e true lr reg sv ebs k = Inr sk"
    and "ind_run bk e true lr reg sv ebs n = Inr sn" and "k \<le> n" and "0 < ebs"
  shows "l_MSE sk = take (k div ebs) (l_MSE sn) \<and> l_shown sk = take (k div ebs) (l_shown sn)"
  using assms(2,3)
proof (induction n arbitrary: sn)
  case 0
  with assms(1) have "sk = sn" "k = 0" by simp_all
  with ind_run_0 [OF 0(1)] show ?case by simp
next
  case (Suc n)
  show ?case
  proof (cases "k = Suc n")
    case True
    with Suc.prems(1) assms(1) have eq: "sk = sn" by simp
    from ind_run_count [OF assms(1,4)]
    have "length (l_MSE sk) = k div ebs" "length (l_shown sk) = k div ebs"
      by (simp, metis length_map)
    with eq show ?thesis by simp
  next
    case False
    with Suc.prems(2) have kn: "k \<le> n" by simp
    from Suc.prems(1) obtain s where s: "ind_run bk e true lr reg sv ebs n = Inr s"
      and ep: "ind_epoch bk (state_after (circuit_fun e) (N e)) (Hs e) true lr reg sv ebs n s
                 = Inr sn"
      by (auto simp add: ind_run_Suc split: sum.splits)
    from Suc.IH [OF s kn]
    have ih: "l_MSE sk = take (k div ebs) (l_MSE s)" "l_shown sk = take (k div ebs) (l_shown s)"
      by simp_all
    from ind_run_count [OF s assms(4)]
    have len: "length (l_MSE s) = n div ebs" "length (l_shown s) = n div ebs"
      by (simp, metis length_map)
    from kn have le: "k div ebs \<le> n div ebs" by (rule div_le_mono)
    from ind_epoch_effect [OF ep]
    obtain ms fs where ext: "l_MSE sn = l_MSE s @ ms" "l_shown sn = l_shown s @ fs"
      by (cases "(n + 1) mod ebs = 0") auto
    from ih len le ext show ?thesis by simp
  qed
qed

lemma ind_run_sample:
  assumes "ind_run bk e true lr reg sv ebs n = Inr sn" and "0 < ebs" and "j < n div ebs"
  shows "\<exists>st es. ind_run bk e true lr reg sv ebs (Suc j * ebs) = Inr st
           \<and> v_compute_vqe_E (state_after (circuit_fun e) (N e)) (mat_Hs (Hs e)) (l_params st)
               = Inr es
           \<and> mse es (true_e (Hs e)) = Inr (l_MSE sn ! j)
           \<and> vqe_fidelties true (l_params st) (state_after (circuit_fun e) (N e))
               = Inr (snd (l_shown sn ! j))"
proof -
  let ?vs = "state_after (circuit_fun e) (N e)"
  from assms(3) have "Suc j \<le> n div ebs" by simp
  then have "Suc j * ebs \<le> (n div ebs) * ebs" by (rule mult_le_mono1)
  also have "\<dots> \<le> n" by simp
  finally have Kn: "Suc j * ebs \<le> n" .
  from assms(2) obtain it where it: "Suc j * ebs = Suc it" by (cases "Suc j * ebs") auto
  from ind_run_earlier [OF assms(1) Kn] obtain st
    where st: "ind_run bk e true lr reg sv ebs (Suc j * ebs) = Inr st" by blast
  from st it obtain s where s: "ind_run bk e true lr reg sv ebs it = Inr s"
    and ep: "ind_epoch bk ?vs (Hs e) true lr reg sv ebs it s = Inr st"
    by (auto simp add: ind_run_Suc split: sum.splits)
  have "(it + 1) mod ebs = 0" using it by (metis Suc_eq_plus1 mod_mult_self2_is_0)
  with ind_epoch_effect [OF ep] obtain es m f where
    es: "v_compute_vqe_E ?vs (mat_Hs (Hs e)) (l_params st) = Inr es"
    and m: "mse es (true_e (Hs e)) = Inr m"
    and f: "vqe_fidelties true (l_params st) ?vs = Inr f"
    and ext: "l_MSE st = l_MSE s @ [m]" "l_shown st = l_shown s @ [(m, f)]"
    by blast
  from ind_run_count [OF st assms(2)] assms(2)
  have "length (l_MSE st) = Suc j" by simp
  with ext have len: "length (l_MSE s) = j" "length (l_shown s) = j"
    using ind_run_count [OF s assms(2)] by (simp, metis length_map length_append_singleton nat.inject)
  from ind_run_prefix [OF st assms(1) Kn assms(2)] assms(2)
  have pre: "l_MSE st = take (Suc j) (l_MSE sn)" "l_shown st = take (Suc j) (l_shown sn)"
    by simp_all
  have "l_MSE sn ! j = take (Suc j) (l_MSE sn) ! j" by simp
  also have "\<dots> = (l_MSE s @ [m]) ! j" by (simp only: pre(1) [symmetric] ext(1))
  also have "\<dots> = m" using len(1) by (simp add: nth_append)
  finally have a: "l_MSE sn ! j = m" .
  have "l_shown sn ! j = take (Suc j) (l_shown sn) ! j" by simp
  also have "\<dots> = (l_shown s @ [(m, f)]) ! j" by (simp only: pre(2) [symmetric] ext(2))
  also have "\<dots> = (m, f)" using len(2) by (simp add: nth_append)
  finally have b: "l_shown sn ! j = (m, f)" .
  from st es m f a b show ?thesis by simp
qed

lemma ind_run_clears:
  "ind_run bk (e\<lparr>MSE := m0\<rparr>) true lr reg sv ebs k = ind_run bk e true lr reg sv ebs k"
  by (simp add: ind_run_def)

lemma finalize_clears:
  "finalize bk (e\<lparr>MSE := m0, true_states := t, recycle := r, trajectory := tr\<rparr>) oom M ps
     = finalize bk (e\<lparr>true_states := t, recycle := r, trajectory := tr\<rparr>) oom M ps"
  by (simp add: finalize_def Let_def cong: sum.case_cong)

lemma train_independent_clears:
  "train_independent bk (e\<lparr>MSE := m0\<rparr>) lr n reg sv ebs = train_independent bk e lr n reg sv ebs"
  by (simp add: train_independent_def ind_run_clears finalize_clears cong: sum.case_cong)

text \<open>
  C4, as the code has it. In the independent mode with a positive \<open>epochs_batch_size\<close>, after
  every \<open>epochs_batch_size\<close> epochs the engine evaluates the MSE of the energies against the
  true energies and the mean fidelity against the true states, at the parameters of that epoch.
  The MSE is appended to the list that becomes \<open>self.MSE\<close>; the mean fidelity goes into the
  description of the progress bar only. A run of \<open>n_epochs\<close> epochs records
  \<open>n_epochs div epochs_batch_size\<close> values; after \<open>k\<close> epochs the list holds the first
  \<open>k div epochs_batch_size\<close> of them, so it only grows; and it starts empty, whatever
  \<open>self.MSE\<close> held before the run.
\<close>

theorem periodic_diagnostics:
  assumes "train_independent bk e lr n_epochs reg sv ebs = Inr (x, shown)" and "0 < ebs"
  shows "\<exists>true. jv_compute_true_state (lib_eigh bk) (mat_Hs (Hs e)) = Inr true
     \<and> length (MSE x) = n_epochs div ebs
     \<and> map fst shown = MSE x
     \<and> (\<forall>k \<le> n_epochs. \<exists>st. ind_run bk e true lr reg sv ebs k = Inr st
            \<and> l_MSE st = take (k div ebs) (MSE x))
     \<and> (\<forall>j < n_epochs div ebs. \<exists>st es.
            ind_run bk e true lr reg sv ebs (Suc j * ebs) = Inr st
          \<and> v_compute_vqe_E (state_after (circuit_fun e) (N e)) (mat_Hs (Hs e)) (l_params st)
              = Inr es
          \<and> mse es (true_e (Hs e)) = Inr (MSE x ! j)
          \<and> vqe_fidelties true (l_params st) (state_after (circuit_fun e) (N e))
              = Inr (snd (shown ! j)))
     \<and> train_independent bk (e\<lparr>MSE := m0\<rparr>) lr n_epochs reg sv ebs = Inr (x, shown)"
proof -
  from assms(1) obtain true sn where
    t: "jv_compute_true_state (lib_eigh bk) (mat_Hs (Hs e)) = Inr true"
    and run: "ind_run bk e true lr reg sv ebs n_epochs = Inr sn"
    and fin: "finalize bk (e\<lparr>true_states := Some true, recycle := False,
                 trajectory := l_traj sn\<rparr>) (l_oom sn) (l_MSE sn) (l_params sn) = Inr x"
    and sh: "shown = l_shown sn"
    unfolding train_independent_def by (auto split: sum.splits)
  from finalize_params [OF fin] have mx: "MSE x = l_MSE sn" by simp
  from ind_run_count [OF run assms(2)] mx sh
  have a: "length (MSE x) = n_epochs div ebs" and b: "map fst shown = MSE x" by simp_all
  have c: "\<exists>st. ind_run bk e true lr reg sv ebs k = Inr st \<and> l_MSE st = take (k div ebs) (MSE x)"
    if "k \<le> n_epochs" for k
  proof -
    from ind_run_earlier [OF run that] obtain sk
      where sk: "ind_run bk e true lr reg sv ebs k = Inr sk" by blast
    from ind_run_prefix [OF sk run that assms(2)] mx sk show ?thesis by simp
  qed
  have d: "\<exists>st es. ind_run bk e true lr reg sv ebs (Suc j * ebs) = Inr st
          \<and> v_compute_vqe_E (state_after (circuit_fun e) (N e)) (mat_Hs (Hs e)) (l_params st)
              = Inr es
          \<and> mse es (true_e (Hs e)) = Inr (MSE x ! j)
          \<and> vqe_fidelties true (l_params st) (state_after (circuit_fun e) (N e))
              = Inr (snd (shown ! j))"
    if "j < n_epochs div ebs" for j
    using ind_run_sample [OF run assms(2) that] mx sh by simp
  have e: "train_independent bk (e\<lparr>MSE := m0\<rparr>) lr n_epochs reg sv ebs = Inr (x, shown)"
    using assms(1) by (simp only: train_independent_clears)
  from t a b c d e show ?thesis by blast
qed

text \<open>Two epochs with \<open>epochs_batch_size = 1\<close> on the grid of one point; the true state is
  \<open>[1, 0]\<close>, every energy is 0, and the optimizer moves the parameter from 0 to 1 and to 2.\<close>

lemma example_init1:
  "vqe_init (example_backend orc) example_grid1 (example_circuit f) 0
     = Inr (example_engine1 f, 1)"
  by (simp add: vqe_init_def example_backend_def example_circuit_def example_grid1_def
      example_engine1_def)

lemma example_true1:
  "jv_compute_true_state example_eigh [[[0, 0], [0, 0]]] = Inr [[1, 0]]"
  by (simp add: jv_compute_true_state_def compute_true_state_def example_eigh_def argmin_def
      upt_rec numeral_2_eq_2)

lemma example_E2: "length s = 2 \<Longrightarrow> compute_E s [[0, 0], [0, 0]] = Inr 0"
  by (cases s; cases "tl s")
     (auto simp add: compute_E_def vecmat_def vdot_def ncols_def upt_rec numeral_2_eq_2)

lemma example_energies1:
  "length (f p) = 2 \<Longrightarrow> v_compute_vqe_E f [[[0, 0], [0, 0]]] [p] = Inr [0]"
  by (simp add: v_compute_vqe_E_def vmap2_def example_E2)

lemma example_epoch1:
  assumes "\<forall>p. length (f p) = 2" "vqe_fidelty (f [a + 1]) [1, 0] = Inr g"
    and "\<not> orc (Fidelity it)"
  shows "ind_epoch (example_backend orc) f example_grid1 [[1, 0]] lr 0 False (Suc 0) it
      \<lparr>l_params = [[a]], l_opt = [[a]], l_oom = b, l_MSE = ms, l_shown = sh, l_traj = []\<rparr>
    = Inr \<lparr>l_params = [[a + 1]], l_opt = [[a + 1]], l_oom = (b \<or> orc (Energies it)),
           l_MSE = ms @ [Num 0], l_shown = sh @ [(Num 0, Num g)], l_traj = []\<rparr>"
  using assms
  by (simp add: ind_epoch_def update_m_def loss_def vmap2_def example_E2 example_backend_def
      example_grid1_def diagnostics_def j_v_compute_vqe_E_def example_energies1 mse_def bsub_def
      jv_fidelties_def vqe_fidelties_def jmean_def Let_def)

lemma example_loop:
  assumes "\<forall>p. length (f p) = 2"
    and "vqe_fidelty (f [1]) [1, 0] = Inr g1" and "vqe_fidelty (f [2]) [1, 0] = Inr g2"
    and "\<not> orc (Fidelity 0)" and "\<not> orc (Fidelity (Suc 0))"
  shows "ind_run (example_backend orc) (example_engine1 f) [[1, 0]] 1 0 False (Suc 0) 2
     = Inr \<lparr>l_params = [[2]], l_opt = [[2]],
            l_oom = (orc (Energies 0) \<or> orc (Energies (Suc 0))),
            l_MSE = [Num 0, Num 0], l_shown = [(Num 0, Num g1), (Num 0, Num g2)], l_traj = []\<rparr>"
proof -
  have e0: "ind_epoch (example_backend orc) f example_grid1 [[1, 0]] 1 0 False (Suc 0) 0
      \<lparr>l_params = [[0]], l_opt = [[0]], l_oom = False, l_MSE = [], l_shown = [], l_traj = []\<rparr>
    = Inr \<lparr>l_params = [[1]], l_opt = [[1]], l_oom = orc (Energies 0),
           l_MSE = [Num 0], l_shown = [(Num 0, Num g1)], l_traj = []\<rparr>"
    using example_epoch1 [of f 0 g1 orc 0 1 False "[]" "[]"] assms by simp
  have e1: "ind_epoch (example_backend orc) f example_grid1 [[1, 0]] 1 0 False (Suc 0) (Suc 0)
      \<lparr>l_params = [[1]], l_opt = [[1]], l_oom = orc (Energies 0),
           l_MSE = [Num 0], l_shown = [(Num 0, Num g1)], l_traj = []\<rparr>
    = Inr \<lparr>l_params = [[2]], l_opt = [[2]],
           l_oom = (orc (Energies 0) \<or> orc (Energies (Suc 0))),
           l_MSE = [Num 0, Num 0], l_shown = [(Num 0, Num g1), (Num 0, Num g2)], l_traj = []\<rparr>"
    using example_epoch1 [of f 1 g2 orc "Suc 0" 1 "orc (Energies 0)" "[Num 0]"
        "[(Num 0, Num g1)]"] assms by simp
  show ?thesis
    unfolding ind_run_def
    by (simp add: example_engine1_def example_circuit_def
        example_backend_def [THEN arg_cong, of opt_init_m] upt_rec numeral_2_eq_2 e0 e1)
qed

lemma example_independent_run:
  assumes "\<forall>p. length (f p) = 2"
    and "vqe_fidelty (f [1]) [1, 0] = Inr g1" and "vqe_fidelty (f [2]) [1, 0] = Inr g2"
    and "\<not> orc (Fidelity 0)" and "\<not> orc (Fidelity (Suc 0))"
    and "orc (Energies 0) \<or> orc (Energies (Suc 0)) \<or> \<not> orc Final"
  shows "map_sum id (\<lambda>(x, shown). (MSE x, shown, vqe_params x, states x, vqe_e x))
      (train_independent (example_backend orc) (example_engine1 f) 1 2 0 False 1)
    = Inr ([Num 0, Num 0], [(Num 0, Num g1), (Num 0, Num g2)], [[2]], Some [f [2]], [0])"
  using assms(1,6)
  by (auto simp add: train_independent_def example_loop [OF assms(1-5)] finalize_def
      j_v_compute_vqe_E_def example_energies1 Let_def
      example_engine1_def [THEN arg_cong, of Hs] example_engine1_def [THEN arg_cong, of N]
      example_engine1_def [THEN arg_cong, of circuit_fun]
      example_grid1_def [THEN arg_cong, of mat_Hs] example_circuit_def
      example_backend_def [THEN arg_cong, of lib_eigh] example_backend_def [THEN arg_cong, of raises]
      example_true1)

lemma example_fidelities:
  "vqe_fidelty [1, 0] [1, 0] = Inr 1" "vqe_fidelty [0, 1] [1, 0] = Inr 0"
  by (simp_all add: vqe_fidelty_def vdot_def)

theorem periodic_diagnostics_witness:
  "map_sum id (\<lambda>(x, shown). (MSE x, shown))
      (train_independent (example_backend (\<lambda>s. False)) (example_engine1 (\<lambda>p. [1, 0])) 1 2 0 False 1)
    = Inr ([Num 0, Num 0], [(Num 0, Num 1), (Num 0, Num 1)])
   \<and> (0 :: nat) < 1
   \<and> map_sum id (\<lambda>(x, shown). length (MSE x))
      (train_independent (example_backend (\<lambda>s. False)) (example_engine1 (\<lambda>p. [1, 0])) 1 2 0 False 1)
    = Inr (2 div 1)
   \<and> map_sum id (\<lambda>(x, shown). (MSE x, shown))
      (train_independent (example_backend (\<lambda>s. False))
         ((example_engine1 (\<lambda>p. [1, 0]))\<lparr>MSE := [Num 7]\<rparr>) 1 2 0 False 1)
    = Inr ([Num 0, Num 0], [(Num 0, Num 1), (Num 0, Num 1)])"
proof -
  let ?t = "train_independent (example_backend (\<lambda>s. False)) (example_engine1 (\<lambda>p. [1, 0]))
              1 2 0 False 1"
  from example_independent_run [of "\<lambda>p. [1, 0]" 1 1 "\<lambda>s. False"] example_fidelities
  have ev: "map_sum id (\<lambda>(x, shown). (MSE x, shown, vqe_params x, states x, vqe_e x)) ?t
      = Inr ([Num 0, Num 0], [(Num 0, Num 1), (Num 0, Num 1)], [[2]], Some [[1, 0]], [0])" by simp
  then obtain x shown where run: "?t = Inr (x, shown)"
    and v: "MSE x = [Num 0, Num 0]" "shown = [(Num 0, Num 1), (Num 0, Num 1)]"
    by (cases ?t) auto
  from periodic_diagnostics [OF run, of "[Num 7]"]
  have "length (MSE x) = 2 div 1"
    and "train_independent (example_backend (\<lambda>s. False))
         ((example_engine1 (\<lambda>p. [1, 0]))\<lparr>MSE := [Num 7]\<rparr>) 1 2 0 False 1 = Inr (x, shown)"
    by auto
  with run v show ?thesis by simp
qed

text \<open>
  The circuits of final state \<open>[1, 0]\<close> and \<open>[0, 1]\<close> have the mean fidelities 1 and 0 with the
  true state, which the progress bar shows; what the two runs record is the same list of two
  MSE values, and no mean fidelity.
\<close>

theorem diagnostics_record_counterexample:
  "map_sum id (\<lambda>(x, shown). (MSE x, shown))
      (train_independent (example_backend (\<lambda>s. False)) (example_engine1 (\<lambda>p. [1, 0])) 1 2 0 False 1)
    = Inr ([Num 0, Num 0], [(Num 0, Num 1), (Num 0, Num 1)])
   \<and> map_sum id (\<lambda>(x, shown). (MSE x, shown))
      (train_independent (example_backend (\<lambda>s. False)) (example_engine1 (\<lambda>p. [0, 1])) 1 2 0 False 1)
    = Inr ([Num 0, Num 0], [(Num 0, Num 0), (Num 0, Num 0)])"
proof -
  let ?t = "\<lambda>s. train_independent (example_backend (\<lambda>s. False)) (example_engine1 (\<lambda>p. s))
              1 2 0 False 1"
  from example_independent_run [of "\<lambda>p. [1, 0]" 1 1 "\<lambda>s. False"] example_fidelities
  have a: "map_sum id (\<lambda>(x, shown). (MSE x, shown, vqe_params x, states x, vqe_e x)) (?t [1, 0])
      = Inr ([Num 0, Num 0], [(Num 0, Num 1), (Num 0, Num 1)], [[2]], Some [[1, 0]], [0])" by simp
  from example_independent_run [of "\<lambda>p. [0, 1]" 0 0 "\<lambda>s. False"] example_fidelities
  have b: "map_sum id (\<lambda>(x, shown). (MSE x, shown, vqe_params x, states x, vqe_e x)) (?t [0, 1])
      = Inr ([Num 0, Num 0], [(Num 0, Num 0), (Num 0, Num 0)], [[2]], Some [[0, 1]], [0])" by simp
  from a have a': "map_sum id (\<lambda>(x, shown). (MSE x, shown)) (?t [1, 0])
      = Inr ([Num 0, Num 0], [(Num 0, Num 1), (Num 0, Num 1)])"
    by (cases "?t [1, 0]") auto
  from b have b': "map_sum id (\<lambda>(x, shown). (MSE x, shown)) (?t [0, 1])
      = Inr ([Num 0, Num 0], [(Num 0, Num 0), (Num 0, Num 0)])"
    by (cases "?t [0, 1]") auto
  from a' b' show ?thesis by simp
qed

section \<open>The fallback of the diagnostics\<close>

text \<open>
  C2, evaluated on the code. The handler of \<open>RuntimeError\<close> encloses the batched energies only.
  The mean fidelity of the same diagnostic block is computed by the jitted batched
  \<open>jv_fidelties\<close> outside of it, also after \<open>oom\<close> is set. When the batched evaluations fail at
  the first diagnostic epoch, the energies are recomputed on the sequential path and the run
  then ends in the \<open>RuntimeError\<close> of the fidelity. When only the batched energies fail, the
  run completes, with the diagnostics of a run without failure, and the finalization takes
  the sequential path.
\<close>

theorem fallback_misses_fidelity:
  "train_independent (example_backend (\<lambda>s. s = Energies 0 \<or> s = Fidelity 0))
      (example_engine1 (\<lambda>p. [1, 0])) 1 2 0 False 1 = Inl RuntimeError
   \<and> map_sum id (\<lambda>(x, shown). (MSE x, shown, vqe_params x, states x, vqe_e x))
      (train_independent (example_backend (\<lambda>s. s = Energies 0 \<or> s = Final))
         (example_engine1 (\<lambda>p. [1, 0])) 1 2 0 False 1)
     = Inr ([Num 0, Num 0], [(Num 0, Num 1), (Num 0, Num 1)], [[2]], Some [[1, 0]], [0])
   \<and> map_sum id (\<lambda>(x, shown). (MSE x, shown, vqe_params x, states x, vqe_e x))
      (train_independent (example_backend (\<lambda>s. False))
         (example_engine1 (\<lambda>p. [1, 0])) 1 2 0 False 1)
     = Inr ([Num 0, Num 0], [(Num 0, Num 1), (Num 0, Num 1)], [[2]], Some [[1, 0]], [0])"
proof -
  let ?o = "\<lambda>s. s = Energies 0 \<or> s = Fidelity 0"
  have ep: "ind_epoch (example_backend ?o) (\<lambda>p. [1, 0]) example_grid1 [[1, 0]] 1 0 False (Suc 0) 0
      \<lparr>l_params = [[0]], l_opt = [[0]], l_oom = False, l_MSE = [], l_shown = [], l_traj = []\<rparr>
    = Inl RuntimeError"
    by (simp add: ind_epoch_def update_m_def loss_def vmap2_def example_E2 example_backend_def
        example_grid1_def diagnostics_def j_v_compute_vqe_E_def example_energies1 mse_def bsub_def
        jv_fidelties_def jmean_def Let_def)
  have run: "ind_run (example_backend ?o) (example_engine1 (\<lambda>p. [1, 0])) [[1, 0]] 1 0 False (Suc 0) 2
     = Inl RuntimeError"
    unfolding ind_run_def
    by (simp add: example_engine1_def example_circuit_def
        example_backend_def [THEN arg_cong, of opt_init_m] upt_rec numeral_2_eq_2 ep)
  have a: "train_independent (example_backend ?o) (example_engine1 (\<lambda>p. [1, 0])) 1 2 0 False 1
      = Inl RuntimeError"
    by (simp add: train_independent_def run
        example_engine1_def [THEN arg_cong, of Hs] example_grid1_def [THEN arg_cong, of mat_Hs]
        example_backend_def [THEN arg_cong, of lib_eigh] example_true1)
  from example_independent_run [of "\<lambda>p. [1, 0]" 1 1 "\<lambda>s. s = Energies 0 \<or> s = Final"]
    example_fidelities
  have b: "map_sum id (\<lambda>(x, shown). (MSE x, shown, vqe_params x, states x, vqe_e x))
      (train_independent (example_backend (\<lambda>s. s = Energies 0 \<or> s = Final))
         (example_engine1 (\<lambda>p. [1, 0])) 1 2 0 False 1)
     = Inr ([Num 0, Num 0], [(Num 0, Num 1), (Num 0, Num 1)], [[2]], Some [[1, 0]], [0])"
    by simp
  from example_independent_run [of "\<lambda>p. [1, 0]" 1 1 "\<lambda>s. False"] example_fidelities
  have c: "map_sum id (\<lambda>(x, shown). (MSE x, shown, vqe_params x, states x, vqe_e x))
      (train_independent (example_backend (\<lambda>s. False))
         (example_engine1 (\<lambda>p. [1, 0])) 1 2 0 False 1)
     = Inr ([Num 0, Num 0], [(Num 0, Num 1), (Num 0, Num 1)], [[2]], Some [[1, 0]], [0])"
    by simp
  from a b c show ?thesis by simp
qed

section \<open>Saving and loading\<close>

lemma finalize_result:
  assumes "finalize bk e oom m ps = Inr x"
  shows "\<exists>es. v_compute_vqe_E (state_after (circuit_fun e) (N e)) (mat_Hs (Hs e)) ps = Inr es
           \<and> x = e\<lparr>MSE := m, vqe_params := ps, vqe_e := es,
                    states := Some (map (state_after (circuit_fun e) (N e)) ps)\<rparr>"
  using assms unfolding finalize_def j_v_compute_vqe_E_def Let_def
  by (auto split: sum.splits if_splits)

lemma train_result:
  fixes bk :: "('o, 'r) backend"
  assumes "train bk e lr n_epochs reg rec sv ebs rng = Inr (x, shown, rng')"
  shows "\<exists>true es. jv_compute_true_state (lib_eigh bk) (mat_Hs (Hs e)) = Inr true
           \<and> v_compute_vqe_E (state_after (circuit_fun e) (N e)) (mat_Hs (Hs e)) (vqe_params x)
               = Inr es
           \<and> vqe_e x = es
           \<and> states x = Some (map (state_after (circuit_fun e) (N e)) (vqe_params x))
           \<and> N x = N e \<and> Hs x = Hs e \<and> circuit_fun x = circuit_fun e"
proof (cases rec)
  case False
  with assms obtain true and st :: "'o ind_state" where
    t: "jv_compute_true_state (lib_eigh bk) (mat_Hs (Hs e)) = Inr true"
    and fin: "finalize bk (e\<lparr>true_states := Some true, recycle := False,
                 trajectory := l_traj st\<rparr>) (l_oom st) (l_MSE st) (l_params st) = Inr x"
    unfolding train_def train_independent_def by (auto split: sum.splits)
  from finalize_result [OF fin] t show ?thesis by auto
next
  case True
  with assms obtain true ps where
    t: "jv_compute_true_state (lib_eigh bk) (mat_Hs (Hs e)) = Inr true"
    and fin: "finalize bk (e\<lparr>true_states := Some true, recycle := True\<rparr>) False [] ps = Inr x"
    unfolding train_def train_recycle_def Let_def
    by (auto split: sum.splits prod.splits if_splits)
  from finalize_result [OF fin] t show ?thesis by auto
qed

lemma vqe_init_result:
  assumes "vqe_init bk H c rng = Inr (e, rng')"
  shows "\<exists>np. consumed c (Hs_N H) (replicate 10000 0) = Inr np
           \<and> N e = Hs_N H \<and> Hs e = H \<and> circuit_fun e = c \<and> states e = None \<and> vqe_e e = []"
  using assms unfolding vqe_init_def by (auto split: sum.splits prod.splits)

lemma vqe_init_total:
  assumes "consumed c (Hs_N H) (replicate 10000 0) = Inr np"
  shows "\<exists>e rng'. vqe_init bk H c rng = Inr (e, rng')"
  using assms unfolding vqe_init_def by (auto split: prod.splits)

text \<open>
  C9. Let \<open>x\<close> be an engine built by \<open>vqe(Hs, circuit)\<close> and trained, in either mode.
  \<open>load_vqe\<close> of the file that \<open>x.save\<close> wrote returns an engine with the parameter tensor, the
  grid and the circuit of \<open>x\<close>. The circuit being a function of the parameters, the states and
  energies computed from the loaded engine are the final states and energies of \<open>x\<close>: by the
  batched circuit and \<open>v_compute_vqe_E\<close> directly, and by the only code of the class that
  computes them, a call of \<open>train\<close> in the independent mode with no epochs, when its jitted
  finalization does not raise.
\<close>

theorem save_load_round_trip:
  assumes "vqe_init bk H c rng0 = Inr (e0, rng1)"
    and "train bk e0 lr n_epochs reg rec sv ebs rng1 = Inr (x, shown, rng2)"
  shows "\<exists>l rng'. load_vqe bk filename (save x filename fs) rng = Inr (l, rng')
           \<and> vqe_params l = vqe_params x
           \<and> Hs l = Hs x \<and> circuit_fun l = circuit_fun x \<and> N l = N x
           \<and> Some (map (state_after (circuit_fun l) (N l)) (vqe_params l)) = states x
           \<and> v_compute_vqe_E (state_after (circuit_fun l) (N l)) (mat_Hs (Hs l)) (vqe_params l)
               = Inr (vqe_e x)
           \<and> (\<not> raises bk Final \<longrightarrow>
                (\<exists>l' sh. train_independent bk l lr' 0 reg' sv' ebs' = Inr (l', sh)
                    \<and> vqe_params l' = vqe_params x
                    \<and> states l' = states x \<and> vqe_e l' = vqe_e x))"
proof -
  from vqe_init_result [OF assms(1)] obtain np where
    cnt: "consumed c (Hs_N H) (replicate 10000 0) = Inr np"
    and e0: "N e0 = Hs_N H" "Hs e0 = H" "circuit_fun e0 = c"
    by blast
  from train_result [OF assms(2)] e0 obtain true where
    t: "jv_compute_true_state (lib_eigh bk) (mat_Hs H) = Inr true"
    and en: "v_compute_vqe_E (state_after c (Hs_N H)) (mat_Hs H) (vqe_params x) = Inr (vqe_e x)"
    and st: "states x = Some (map (state_after c (Hs_N H)) (vqe_params x))"
    and x: "N x = Hs_N H" "Hs x = H" "circuit_fun x = c"
    by auto
  from vqe_init_total [OF cnt, where bk = bk and rng = rng] obtain l0 rng' where i: "vqe_init bk H c rng = Inr (l0, rng')"
    by blast
  from vqe_init_result [OF i] have l0: "N l0 = Hs_N H" "Hs l0 = H" "circuit_fun l0 = c"
    by auto
  let ?l = "l0\<lparr>vqe_params := vqe_params x\<rparr>"
  have load: "load_vqe bk filename (save x filename fs) rng = Inr (?l, rng')"
    by (simp add: load_vqe_def save_def x i)
  have l: "vqe_params ?l = vqe_params x" "N ?l = Hs_N H" "Hs ?l = H" "circuit_fun ?l = c"
    using l0 by simp_all
  have re: "\<exists>l' sh. train_independent bk ?l lr' 0 reg' sv' ebs' = Inr (l', sh)
                    \<and> vqe_params l' = vqe_params x
                    \<and> states l' = states x \<and> vqe_e l' = vqe_e x" if "\<not> raises bk Final"
    using that t en st l0
    by (simp add: train_independent_def ind_run_def finalize_def j_v_compute_vqe_E_def Let_def)
  from load l x en st re show ?thesis
    by (intro exI [of _ ?l] exI [of _ rng']) simp
qed

text \<open>
  The round trip on the grid of one point, for a circuit whose state is \<open>[0, 1]\<close> at the trained
  parameter 2 and \<open>[1, 0]\<close> elsewhere: the loaded engine has the parameters \<open>[[2]]\<close>, not those
  of its own initialization, and the recomputed state is \<open>[0, 1]\<close>.
\<close>

theorem save_load_round_trip_witness:
  "vqe_init (example_backend (\<lambda>s. False)) example_grid1
       (example_circuit (\<lambda>p. if p = [2] then [0, 1] else [1, 0])) 0
     = Inr (example_engine1 (\<lambda>p. if p = [2] then [0, 1] else [1, 0]), 1)
   \<and> map_sum id (\<lambda>(x, shown, r). (vqe_params x, states x, vqe_e x))
       (train (example_backend (\<lambda>s. False))
          (example_engine1 (\<lambda>p. if p = [2] then [0, 1] else [1, 0])) 1 2 0 False False 1 1)
     = Inr ([[2]], Some [[0, 1]], [0])
   \<and> map_sum id (\<lambda>(x, shown, r).
        map_sum id (\<lambda>(l, r'). (vqe_params l,
            map (state_after (circuit_fun l) (N l)) (vqe_params l),
            v_compute_vqe_E (state_after (circuit_fun l) (N l)) (mat_Hs (Hs l)) (vqe_params l)))
          (load_vqe (example_backend (\<lambda>s. False)) ''vqe.pkl'' (save x ''vqe.pkl'' Map.empty) 5))
       (train (example_backend (\<lambda>s. False))
          (example_engine1 (\<lambda>p. if p = [2] then [0, 1] else [1, 0])) 1 2 0 False False 1 1)
     = Inr (Inr ([[2]], [[0, 1]], Inr [0]))"
proof -
  let ?f = "\<lambda>p :: real list. if p = [2] then [0, 1 :: complex] else [1, 0]"
  let ?bk = "example_backend (\<lambda>s. False)"
  let ?t = "train ?bk (example_engine1 ?f) 1 2 0 False False 1 1"
  have i: "vqe_init ?bk example_grid1 (example_circuit ?f) 0 = Inr (example_engine1 ?f, 1)"
    by (rule example_init1)
  have fz: "vqe_fidelty (?f [1]) [1, 0] = Inr 1" "vqe_fidelty (?f [2]) [1, 0] = Inr 0"
    by (simp_all add: vqe_fidelty_def vdot_def)
  from example_independent_run [of ?f 1 0 "\<lambda>s. False"] fz
  have ev: "map_sum id (\<lambda>(x, shown). (MSE x, shown, vqe_params x, states x, vqe_e x))
      (train_independent ?bk (example_engine1 ?f) 1 2 0 False 1)
    = Inr ([Num 0, Num 0], [(Num 0, Num 1), (Num 0, Num 0)], [[2]], Some [[0, 1]], [0])"
    by simp
  then obtain x shown where run: "?t = Inr (x, shown, 1)"
    and v: "vqe_params x = [[2]]" "states x = Some [[0, 1]]" "vqe_e x = [0]"
    by (cases "train_independent ?bk (example_engine1 ?f) 1 2 0 False 1") (auto simp add: train_def)
  from save_load_round_trip [OF i run, of "''vqe.pkl''" Map.empty 5]
  obtain l r' where ld: "load_vqe ?bk ''vqe.pkl'' (save x ''vqe.pkl'' Map.empty) 5 = Inr (l, r')"
    and p: "vqe_params l = vqe_params x"
    and s: "Some (map (state_after (circuit_fun l) (N l)) (vqe_params l)) = states x"
    and e: "v_compute_vqe_E (state_after (circuit_fun l) (N l)) (mat_Hs (Hs l)) (vqe_params l)
               = Inr (vqe_e x)"
    by blast
  from s v have s': "map (state_after (circuit_fun l) (N l)) (vqe_params l) = [[0, 1]]" by simp
  from i run v ld p s' e show ?thesis by simp
qed

end
